theory Spec2Isabelle
  imports Complex_Main "HOL-Library.Multiset"
begin

section \<open>Strings and numbers as the JavaScript source uses them\<close>

text \<open>
  The server (\<^verbatim>\<open>src/RSS-Server/server.js\<close>) builds its strings with \<^verbatim>\<open>+\<close>, template
  literals, \<^verbatim>\<open>Number.prototype.toString\<close>, \<^verbatim>\<open>String.prototype.padStart\<close> and
  \<^verbatim>\<open>String.prototype.substring\<close>. Strings are \<^typ>\<open>string\<close>; a JavaScript number is a
  \<^typ>\<open>real\<close> (exact arithmetic; rounding of doubles is not modelled), with the values
  \<^verbatim>\<open>undefined\<close> and \<^verbatim>\<open>NaN\<close> kept apart where the source tests for them.
\<close>

definition digit_char :: "nat \<Rightarrow> char" where
  "digit_char d =
     (if d = 0 then CHR ''0'' else if d = 1 then CHR ''1'' else if d = 2 then CHR ''2''
      else if d = 3 then CHR ''3'' else if d = 4 then CHR ''4'' else if d = 5 then CHR ''5''
      else if d = 6 then CHR ''6'' else if d = 7 then CHR ''7'' else if d = 8 then CHR ''8''
      else CHR ''9'')"

text \<open>Decimal rendering of a non-negative integer, most significant digit first.\<close>

fun string_of_nat :: "nat \<Rightarrow> string" where
  "string_of_nat n = (if n < 10 then [digit_char n] else string_of_nat (n div 10) @ [digit_char (n mod 10)])"

declare string_of_nat.simps [simp del]

text \<open>\<^verbatim>\<open>(n).toString()\<close> of an integral number: a leading minus sign when negative.\<close>

definition toString :: "int \<Rightarrow> string" where
  "toString i = (if i < 0 then CHR ''-'' # string_of_nat (nat (- i)) else string_of_nat (nat i))"

text \<open>\<^verbatim>\<open>s.padStart(n, '0')\<close>: zeros in front until the length is \<open>n\<close>; a longer string is kept.\<close>

definition padStart :: "nat \<Rightarrow> string \<Rightarrow> string" where
  "padStart n s = replicate (n - length s) CHR ''0'' @ s"

text \<open>\<^verbatim>\<open>s.substring(a, b)\<close> for \<open>a \<le> b\<close>: both indices are clamped to the length.\<close>

definition substring :: "nat \<Rightarrow> nat \<Rightarrow> string \<Rightarrow> string" where
  "substring a b s = take (b - a) (drop a s)"

text \<open>The remainder operator \<^verbatim>\<open>%\<close>: the quotient is truncated towards zero.\<close>

definition js_rem :: "real \<Rightarrow> real \<Rightarrow> real" where
  "js_rem x y = x - y * of_int (if 0 \<le> x / y then \<lfloor>x / y\<rfloor> else \<lceil>x / y\<rceil>)"

section \<open>formatDuration\<close>

text \<open>
  \<^verbatim>\<open>function formatDuration(seconds) {
    if (!seconds || isNaN(seconds)) return '00:00';
    const hrs = Math.floor(seconds / 3600);
    const mins = Math.floor((seconds % 3600) / 60);
    const secs = Math.floor(seconds % 60);
    if (hrs > 0) { return `${hrs}:${mins.toString().padStart(2, '0')}:${secs.toString().padStart(2, '0')}`; }
    return `${mins}:${secs.toString().padStart(2, '0')}`;
  }\<close>
  The argument is \<^verbatim>\<open>metadata.format && metadata.format.duration\<close>: a number, \<^verbatim>\<open>NaN\<close>, or
  \<^verbatim>\<open>undefined\<close> when the parser found no duration.
\<close>

datatype duration_arg = NoDuration | NaNDuration | Seconds real

fun formatDuration :: "duration_arg \<Rightarrow> string" where
  "formatDuration NoDuration = ''00:00''"
| "formatDuration NaNDuration = ''00:00''"
| "formatDuration (Seconds seconds) =
     (if seconds = 0 then ''00:00''
      else let hrs = \<lfloor>seconds / 3600\<rfloor>;
               mins = \<lfloor>js_rem seconds 3600 / 60\<rfloor>;
               secs = \<lfloor>js_rem seconds 60\<rfloor>
           in if hrs > 0
              then toString hrs @ '':'' @ padStart 2 (toString mins) @ '':'' @ padStart 2 (toString secs)
              else toString mins @ '':'' @ padStart 2 (toString secs))"

text \<open>Two digits, as \<^verbatim>\<open>MM\<close> and \<^verbatim>\<open>SS\<close> are written.\<close>

definition two_digits :: "nat \<Rightarrow> string" where
  "two_digits n = [digit_char (n div 10), digit_char (n mod 10)]"

section \<open>getTagValue\<close>

text \<open>
  The metadata object handed to \<^verbatim>\<open>getTagValue\<close> is a dynamically typed tree. An object
  is the list of its own properties (keys distinct, as in a JavaScript object); a
  property that is missing reads as \<^verbatim>\<open>undefined\<close>. Properties inherited from a
  prototype are not modelled.
\<close>

datatype jsval =
    Undefined
  | Null
  | Bool bool
  | Num real
  | NaN
  | Str string
  | Arr "jsval list"
  | Obj "(string \<times> jsval) list"

text \<open>Truthiness: what \<^verbatim>\<open>value && ...\<close> and \<^verbatim>\<open>value || null\<close> test.\<close>

fun truthy :: "jsval \<Rightarrow> bool" where
  "truthy Undefined = False"
| "truthy Null = False"
| "truthy (Bool b) = b"
| "truthy (Num n) = (n \<noteq> 0)"
| "truthy NaN = False"
| "truthy (Str s) = (s \<noteq> [])"
| "truthy (Arr xs) = True"
| "truthy (Obj kvs) = True"

text \<open>\<^verbatim>\<open>value[0]\<close> on an array: \<^verbatim>\<open>undefined\<close> when the array is empty.\<close>

fun first_elem :: "jsval list \<Rightarrow> jsval" where
  "first_elem [] = Undefined"
| "first_elem (x # xs) = x"

text \<open>\<^verbatim>\<open>value[part]\<close> on an object.\<close>

definition get_prop :: "(string \<times> jsval) list \<Rightarrow> string \<Rightarrow> jsval" where
  "get_prop kvs k = (case map_of kvs k of None \<Rightarrow> Undefined | Some v \<Rightarrow> v)"

text \<open>\<^verbatim>\<open>s.split(c)\<close> for a one-character separator: never empty, \<^verbatim>\<open>''.split('.')\<close> is \<^verbatim>\<open>['']\<close>.\<close>

fun split_on :: "char \<Rightarrow> string \<Rightarrow> string list" where
  "split_on c [] = [[]]"
| "split_on c (x # xs) =
     (if x = c then [] # split_on c xs
      else (case split_on c xs of [] \<Rightarrow> [[x]] | p # ps \<Rightarrow> (x # p) # ps))"

text \<open>
  The loop of \<^verbatim>\<open>getTagValue\<close> over the parts of the path; \<open>None\<close> is the early
  \<^verbatim>\<open>return null\<close> of its \<^verbatim>\<open>else\<close> branch:
  \<^verbatim>\<open>for (const part of parts) {
    if (value && typeof value === 'object') {
      if (Array.isArray(value)) { value = value[0]; } else { value = value[part]; }
    } else { return null; }
  }\<close>
\<close>

fun getTagValue_loop :: "jsval \<Rightarrow> string list \<Rightarrow> jsval option" where
  "getTagValue_loop v [] = Some v"
| "getTagValue_loop (Arr xs) (part # parts) = getTagValue_loop (first_elem xs) parts"
| "getTagValue_loop (Obj kvs) (part # parts) = getTagValue_loop (get_prop kvs part) parts"
| "getTagValue_loop v (part # parts) = None"

text \<open>
  After the loop: \<^verbatim>\<open>if (Array.isArray(value)) { value = value[0]; } return value || null;\<close>
\<close>

fun unwrap_first :: "jsval \<Rightarrow> jsval" where
  "unwrap_first (Arr xs) = first_elem xs"
| "unwrap_first v = v"

definition or_null :: "jsval \<Rightarrow> jsval" where
  "or_null v = (if truthy v then v else Null)"

definition getTagValue :: "jsval \<Rightarrow> string \<Rightarrow> jsval" where
  "getTagValue metadata tagPath =
     (case getTagValue_loop metadata (split_on CHR ''.'' tagPath) of
        None \<Rightarrow> Null
      | Some v \<Rightarrow> or_null (unwrap_first v))"

text \<open>
  What a dotted path addresses, read as the property chain \<^verbatim>\<open>metadata?.a?.b\<close> through
  nested objects: the reference the accessor is compared with. Anything that is not an
  object has no named property.
\<close>

fun addressed :: "jsval \<Rightarrow> string list \<Rightarrow> jsval" where
  "addressed v [] = v"
| "addressed (Obj kvs) (part # parts) = addressed (get_prop kvs part) parts"
| "addressed v (part # parts) = Undefined"

text \<open>A repeated field (an array) is met while parts of the path remain.\<close>

fun inner_array :: "jsval \<Rightarrow> string list \<Rightarrow> bool" where
  "inner_array v [] = False"
| "inner_array (Arr xs) (part # parts) = True"
| "inner_array (Obj kvs) (part # parts) = inner_array (get_prop kvs part) parts"
| "inner_array v (part # parts) = False"

section \<open>Configuration and platform\<close>

text \<open>
  The fields of \<^verbatim>\<open>config.js\<close> that the modelled functions read. An unset string is the
  empty string, an unset number is \<open>0\<close>: both are falsy in the source's \<^verbatim>\<open>||\<close> defaults.
\<close>

record config =
  coverSize :: int
  cropMode :: string
  generateSquareCovers :: bool
  channelImage :: string
  maxTracksInRSS :: int

type_synonym bytes = "nat list"

record image_metadata =
  width :: int
  height :: int

text \<open>
  The library calls whose results the server only passes on: the hex digests of
  \<^verbatim>\<open>crypto.createHash(...).update(s).digest('hex')\<close> and the image header read by
  \<^verbatim>\<open>sharp(buffer).metadata()\<close>. \<open>None\<close> is a thrown exception.
\<close>

record platform =
  sha256 :: "string \<Rightarrow> string option"
  md5 :: "string \<Rightarrow> string option"
  sharp_metadata :: "bytes \<Rightarrow> image_metadata option"

datatype error = NoAudioFilesFound | ImageCropError

section \<open>generateStableGuid\<close>

record stats =
  stat_size :: int
  stat_mtime :: int

text \<open>The five groups of the UUID shape, cut from the hex digest with \<^verbatim>\<open>substring\<close>.\<close>

definition uuid_shape :: "string \<Rightarrow> string" where
  "uuid_shape hash =
     substring 0 8 hash @ ''-'' @ substring 8 12 hash @ ''-'' @ substring 12 16 hash @ ''-'' @
     substring 16 20 hash @ ''-'' @ substring 20 32 hash"

text \<open>
  \<^verbatim>\<open>function generateStableGuid(filePath, stat) {
    try {
      var fileKey = filePath + ':' + stat.size;
      if (fileGuidCache.has(fileKey)) { return fileGuidCache.get(fileKey); }
      var hash = crypto.createHash('sha256').update(fileKey).digest('hex');
      var uuid = hash.substring(0, 8) + '-' + ... + hash.substring(20, 32);
      var guid = 'urn:uuid:' + uuid;
      fileGuidCache.set(fileKey, guid);
      return guid;
    } catch (error) {
      var backupHash = crypto.createHash('md5').update(filePath).digest('hex');
      return 'urn:uuid:' + backupHash.substring(0, 8) + '-' + ... + backupHash.substring(20, 32);
    }
  }\<close>
  The memo table \<^verbatim>\<open>fileGuidCache\<close> is passed in and returned. The result \<open>None\<close> is an
  exception that leaves the function (the digest of the \<^verbatim>\<open>catch\<close> block throws too).
\<close>

definition generateStableGuid ::
  "platform \<Rightarrow> string \<Rightarrow> stats \<Rightarrow> (string \<rightharpoonup> string) \<Rightarrow> string option \<times> (string \<rightharpoonup> string)" where
  "generateStableGuid pf filePath stat fileGuidCache =
     (let fileKey = filePath @ '':'' @ toString (stat_size stat) in
      case fileGuidCache fileKey of
        Some cached \<Rightarrow> (Some cached, fileGuidCache)
      | None \<Rightarrow>
          (case sha256 pf fileKey of
             Some hash \<Rightarrow>
               (let guid = ''urn:uuid:'' @ uuid_shape hash
                in (Some guid, fileGuidCache(fileKey \<mapsto> guid)))
           | None \<Rightarrow>
               (case md5 pf filePath of
                  Some backupHash \<Rightarrow> (Some (''urn:uuid:'' @ uuid_shape backupHash), fileGuidCache)
                | None \<Rightarrow> (None, fileGuidCache))))"

text \<open>
  The memo table after a sequence of calls: a process starts with the empty table, so
  \<open>guid_calls pf calls Map.empty\<close> is the table at any moment of a process's life.
\<close>

fun guid_calls :: "platform \<Rightarrow> (string \<times> stats) list \<Rightarrow> (string \<rightharpoonup> string) \<Rightarrow> (string \<rightharpoonup> string)" where
  "guid_calls pf [] tab = tab"
| "guid_calls pf ((filePath, stat) # calls) tab =
     guid_calls pf calls (snd (generateStableGuid pf filePath stat tab))"

section \<open>cropToSquare\<close>

text \<open>
  The chain of \<^verbatim>\<open>sharp\<close> operations that \<^verbatim>\<open>cropToSquare\<close> requests; the pixels are
  sharp's. \<open>Extract left top width height\<close>, \<open>Resize width height fit\<close>,
  \<open>Extend top bottom left right\<close> (white background), \<open>Jpeg quality\<close>.
\<close>

datatype fit = Fill | Contain

datatype sharp_op =
    Extract int int int int
  | Resize int int fit
  | Extend int int int int
  | Jpeg nat

text \<open>\<^verbatim>\<open>Math.round\<close>: halves go up.\<close>

definition js_round :: "real \<Rightarrow> int" where
  "js_round x = \<lfloor>x + 1 / 2\<rfloor>"

text \<open>
  \<^verbatim>\<open>async function cropToSquare(imageBuffer, size) {
    size = size || 3000;
    try {
      var image = sharp(imageBuffer);
      var metadata = await image.metadata();
      if (metadata.width === metadata.height && metadata.width === size) {
        return await image.jpeg({ quality: 90 }).toBuffer();
      }
      var cropMode = config.rss.youtube.cropMode || 'crop';
      if (cropMode === 'crop') {
        var minSize = Math.min(metadata.width, metadata.height);
        var left = Math.floor((metadata.width - minSize) / 2);
        var top = Math.floor((metadata.height - minSize) / 2);
        return await image.extract({ left: left, top: top, width: minSize, height: minSize })
          .resize(size, size, { fit: 'fill' }).jpeg({ quality: 90 }).toBuffer();
      } else {
        var ratio = Math.min(size / metadata.width, size / metadata.height);
        var newWidth = Math.round(metadata.width * ratio);
        var newHeight = Math.round(metadata.height * ratio);
        return await image.resize(newWidth, newHeight, { fit: 'contain', ... })
          .extend({ top: Math.floor((size - newHeight) / 2), bottom: Math.ceil((size - newHeight) / 2),
                    left: Math.floor((size - newWidth) / 2), right: Math.ceil((size - newWidth) / 2), ... })
          .jpeg({ quality: 90 }).toBuffer();
      }
    } catch (error) { throw new Error('Image crop error: ' + error.message); }
  }\<close>
  The result is the operation chain applied to the decoded image, or the error thrown when
  the buffer cannot be decoded.
\<close>

definition cropToSquare :: "config \<Rightarrow> platform \<Rightarrow> bytes \<Rightarrow> int \<Rightarrow> error + sharp_op list" where
  "cropToSquare cfg pf imageBuffer size0 =
     (let size = (if size0 = 0 then 3000 else size0) in
      case sharp_metadata pf imageBuffer of
        None \<Rightarrow> Inl ImageCropError
      | Some metadata \<Rightarrow>
          if width metadata = height metadata \<and> width metadata = size then Inr [Jpeg 90]
          else
            let mode = (if cropMode cfg = [] then ''crop'' else cropMode cfg) in
            if mode = ''crop'' then
              let minSize = min (width metadata) (height metadata);
                  left = (width metadata - minSize) div 2;
                  top = (height metadata - minSize) div 2
              in Inr [Extract left top minSize minSize, Resize size size Fill, Jpeg 90]
            else
              let ratio = min (real_of_int size / real_of_int (width metadata))
                              (real_of_int size / real_of_int (height metadata));
                  newWidth = js_round (real_of_int (width metadata) * ratio);
                  newHeight = js_round (real_of_int (height metadata) * ratio)
              in Inr [Resize newWidth newHeight Contain,
                      Extend \<lfloor>real_of_int (size - newHeight) / 2\<rfloor> \<lceil>real_of_int (size - newHeight) / 2\<rceil>
                             \<lfloor>real_of_int (size - newWidth) / 2\<rfloor> \<lceil>real_of_int (size - newWidth) / 2\<rceil>,
                      Jpeg 90])"

section \<open>Cover derivation\<close>

text \<open>
  A file of the covers directory is described by what it was made from: the source bytes
  and the operation chain of \<^verbatim>\<open>cropToSquare\<close>.
\<close>

datatype cover_file = Derived bytes "sharp_op list"

record audio_file =
  path :: string
  folder :: string
  filename :: string

text \<open>
  What \<^verbatim>\<open>parseFile\<close> returns, as far as the modelled code reads it: the data of
  \<^verbatim>\<open>metadata.common.picture[0]\<close> (when all of \<^verbatim>\<open>common\<close>, \<^verbatim>\<open>picture\<close>, its first
  element and its \<^verbatim>\<open>data\<close> are there) and \<^verbatim>\<open>metadata.format.duration\<close>.
\<close>

record track_metadata =
  picture :: "bytes option"
  duration :: duration_arg

text \<open>
  Everything the feed pipeline reads and writes apart from the feed cache: the audio
  files that \<^verbatim>\<open>findAudioFiles\<close> returns, each with what \<^verbatim>\<open>fs.stat\<close> and
  \<^verbatim>\<open>parseFile\<close> give for it (\<open>None\<close>: the call throws), the files of the covers
  directory, what \<^verbatim>\<open>downloadImage\<close> fetches for a URL (\<open>None\<close>: the promise is
  rejected), and the memo table of \<^verbatim>\<open>generateStableGuid\<close>. Two counters record how often
  \<^verbatim>\<open>parseFile\<close> and \<^verbatim>\<open>cropToSquare\<close> were called.
\<close>

record world =
  library :: "(audio_file \<times> (stats \<times> track_metadata option) option) list"
  covers_cache :: "string \<rightharpoonup> cover_file"
  remote :: "string \<Rightarrow> bytes option"
  fileGuidCache :: "string \<rightharpoonup> string"
  parse_calls :: nat
  crop_calls :: nat

text \<open>The file names under which a track's and the channel's cover are stored.\<close>

definition track_coverFilename :: "config \<Rightarrow> string \<Rightarrow> string" where
  "track_coverFilename cfg hash =
     ''track_'' @ substring 0 12 hash @ ''_'' @ toString (coverSize cfg) @ ''.jpg''"

definition channel_coverFilename :: "config \<Rightarrow> string \<Rightarrow> string" where
  "channel_coverFilename cfg hash =
     ''channel_'' @ substring 0 12 hash @ ''_'' @ toString (coverSize cfg) @ ''.jpg''"

text \<open>
  \<^verbatim>\<open>async function processTrackCover(metadata, filePath, stat, baseUrl) {
    try {
      if (!metadata.common || !metadata.common.picture || !metadata.common.picture[0]
          || !metadata.common.picture[0].data) { return null; }
      var picture = metadata.common.picture[0];
      var fileHash = crypto.createHash('md5').update(filePath + ':' + stat.size).digest('hex').substring(0, 12);
      var coverFilename = 'track_' + fileHash + '_' + config.rss.youtube.coverSize + '.jpg';
      var coverPath = path.join(COVERS_CACHE_DIR, coverFilename);
      try { await fs.access(coverPath); return baseUrl + '/covers_cache/' + coverFilename; } catch (e) { }
      var squareImage = await cropToSquare(picture.data, config.rss.youtube.coverSize);
      await sharp(squareImage).toFile(coverPath);
      return baseUrl + '/covers_cache/' + coverFilename;
    } catch (error) { return null; }
  }\<close>
  Writing the file is taken to succeed.
\<close>

definition processTrackCover ::
  "config \<Rightarrow> platform \<Rightarrow> track_metadata \<Rightarrow> string \<Rightarrow> stats \<Rightarrow> string \<Rightarrow> world \<Rightarrow> string option \<times> world" where
  "processTrackCover cfg pf metadata filePath stat baseUrl w =
     (case picture metadata of
        None \<Rightarrow> (None, w)
      | Some picture_data \<Rightarrow>
          (case md5 pf (filePath @ '':'' @ toString (stat_size stat)) of
             None \<Rightarrow> (None, w)
           | Some hash \<Rightarrow>
               (let coverFilename = track_coverFilename cfg hash in
                if coverFilename \<in> dom (covers_cache w)
                then (Some (baseUrl @ ''/covers_cache/'' @ coverFilename), w)
                else
                  (case cropToSquare cfg pf picture_data (coverSize cfg) of
                     Inl e \<Rightarrow> (None, w\<lparr>crop_calls := crop_calls w + 1\<rparr>)
                   | Inr ops \<Rightarrow>
                       (Some (baseUrl @ ''/covers_cache/'' @ coverFilename),
                        w\<lparr>covers_cache := (covers_cache w)(coverFilename \<mapsto> Derived picture_data ops),
                          crop_calls := crop_calls w + 1\<rparr>)))))"

text \<open>
  \<^verbatim>\<open>async function processChannelCover(baseUrl) {
    try {
      if (!config.rss.channelImage) { return ''; }
      var coverHash = crypto.createHash('md5').update(config.rss.channelImage).digest('hex').substring(0, 12);
      var coverFilename = 'channel_' + coverHash + '_' + config.rss.youtube.coverSize + '.jpg';
      var coverPath = path.join(COVERS_CACHE_DIR, coverFilename);
      try { await fs.access(coverPath); return baseUrl + '/covers_cache/' + coverFilename; } catch (e) { }
      var imageBuffer = await downloadImage(config.rss.channelImage);
      var squareImage = await cropToSquare(imageBuffer, config.rss.youtube.coverSize);
      await sharp(squareImage).toFile(coverPath);
      return baseUrl + '/covers_cache/' + coverFilename;
    } catch (error) { return ''; }
  }\<close>
\<close>

definition processChannelCover :: "config \<Rightarrow> platform \<Rightarrow> string \<Rightarrow> world \<Rightarrow> string \<times> world" where
  "processChannelCover cfg pf baseUrl w =
     (if channelImage cfg = [] then ([], w)
      else
        (case md5 pf (channelImage cfg) of
           None \<Rightarrow> ([], w)
         | Some hash \<Rightarrow>
             (let coverFilename = channel_coverFilename cfg hash in
              if coverFilename \<in> dom (covers_cache w)
              then (baseUrl @ ''/covers_cache/'' @ coverFilename, w)
              else
                (case remote w (channelImage cfg) of
                   None \<Rightarrow> ([], w)
                 | Some imageBuffer \<Rightarrow>
                     (case cropToSquare cfg pf imageBuffer (coverSize cfg) of
                        Inl e \<Rightarrow> ([], w\<lparr>crop_calls := crop_calls w + 1\<rparr>)
                      | Inr ops \<Rightarrow>
                          (baseUrl @ ''/covers_cache/'' @ coverFilename,
                           w\<lparr>covers_cache := (covers_cache w)(coverFilename \<mapsto> Derived imageBuffer ops),
                             crop_calls := crop_calls w + 1\<rparr>))))))"

section \<open>generateRssData\<close>

text \<open>
  A feed item, with the fields the statements below speak about. \<open>pubDate\<close> is the
  instant that \<^verbatim>\<open>stat.mtime.toUTCString()\<close> denotes, in whole seconds: the string drops
  the milliseconds. The title, author, link and description of an item are left out.
\<close>

record feed_item =
  guid :: string
  pubDate :: int
  itunes_duration :: string
  enclosure_length :: int
  itunes_image :: "string option"

text \<open>
  The feed document. \<open>lastBuildDate\<close> is the instant that \<^verbatim>\<open>now.toUTCString()\<close> denotes,
  in whole seconds, for the \<^verbatim>\<open>now = new Date()\<close> of \<^verbatim>\<open>generateRssData\<close>.
\<close>

record rss_data =
  lastBuildDate :: int
  channel_image :: string
  item :: "feed_item list"

text \<open>
  \<^verbatim>\<open>items.sort(cmp)\<close>: \<^verbatim>\<open>Array.prototype.sort\<close> is stable, and for a comparator that
  compares a numeric key the stable sorted arrangement is unique; it is computed here
  by insertion, last element first. An element goes before the first element it does
  not compare greater than.
\<close>

fun js_insert :: "('a \<Rightarrow> 'a \<Rightarrow> int) \<Rightarrow> 'a \<Rightarrow> 'a list \<Rightarrow> 'a list" where
  "js_insert cmp x [] = [x]"
| "js_insert cmp x (y # ys) = (if cmp x y \<le> 0 then x # y # ys else y # js_insert cmp x ys)"

definition js_sort :: "('a \<Rightarrow> 'a \<Rightarrow> int) \<Rightarrow> 'a list \<Rightarrow> 'a list" where
  "js_sort cmp xs = foldr (js_insert cmp) xs []"

text \<open>\<^verbatim>\<open>function(a, b) { return new Date(b.pubDate) - new Date(a.pubDate); }\<close>\<close>

definition by_pubDate :: "feed_item \<Rightarrow> feed_item \<Rightarrow> int" where
  "by_pubDate a b = pubDate b - pubDate a"

text \<open>\<^verbatim>\<open>xs.slice(0, e)\<close>: a negative end counts from the back.\<close>

definition slice0 :: "int \<Rightarrow> 'a list \<Rightarrow> 'a list" where
  "slice0 e xs =
     (let len = int (length xs);
          k = (if e < 0 then max (len + e) 0 else min e len)
      in take (nat k) xs)"

text \<open>
  The end of \<^verbatim>\<open>generateRssData\<close>:
  \<^verbatim>\<open>items.sort(function(a, b) { return new Date(b.pubDate) - new Date(a.pubDate); });
  var maxItems = Math.min(items.length, config.advanced.maxTracksInRSS);
  var limitedItems = items.slice(0, maxItems);\<close>
\<close>

definition limitedItems :: "config \<Rightarrow> feed_item list \<Rightarrow> feed_item list" where
  "limitedItems cfg items =
     (let sorted = js_sort by_pubDate items;
          maxItems = min (int (length sorted)) (maxTracksInRSS cfg)
      in slice0 maxItems sorted)"

text \<open>
  The loop of \<^verbatim>\<open>generateRssData\<close> over the audio files. A file whose \<^verbatim>\<open>fs.stat\<close>,
  \<^verbatim>\<open>parseFile\<close> or \<^verbatim>\<open>generateStableGuid\<close> throws is skipped by the \<^verbatim>\<open>catch\<close> of the
  loop body; what was written before the exception stays written.
\<close>

fun build_items ::
  "config \<Rightarrow> platform \<Rightarrow> string \<Rightarrow> string \<Rightarrow> (audio_file \<times> (stats \<times> track_metadata option) option) list
     \<Rightarrow> world \<Rightarrow> feed_item list \<times> world" where
  "build_items cfg pf baseUrl channelCoverUrl [] w = ([], w)"
| "build_items cfg pf baseUrl channelCoverUrl ((file, None) # rest) w =
     build_items cfg pf baseUrl channelCoverUrl rest w"
| "build_items cfg pf baseUrl channelCoverUrl ((file, Some (stat, None)) # rest) w =
     build_items cfg pf baseUrl channelCoverUrl rest (w\<lparr>parse_calls := parse_calls w + 1\<rparr>)"
| "build_items cfg pf baseUrl channelCoverUrl ((file, Some (stat, Some metadata)) # rest) w =
     (let w1 = w\<lparr>parse_calls := parse_calls w + 1\<rparr>;
          (trackCover, w2) =
             (if generateSquareCovers cfg
              then processTrackCover cfg pf metadata (path file) stat baseUrl w1
              else (None, w1));
          coverUrl =
             (case trackCover of
                Some url \<Rightarrow> Some url
              | None \<Rightarrow> if channelCoverUrl \<noteq> [] then Some channelCoverUrl else None);
          (guidValue, tab) = generateStableGuid pf (path file) stat (fileGuidCache w2);
          w3 = w2\<lparr>fileGuidCache := tab\<rparr>
      in case guidValue of
           None \<Rightarrow> build_items cfg pf baseUrl channelCoverUrl rest w3
         | Some g \<Rightarrow>
             (let (items, w4) = build_items cfg pf baseUrl channelCoverUrl rest w3
              in (\<lparr>guid = g,
                   pubDate = stat_mtime stat div 1000,
                   itunes_duration = formatDuration (duration metadata),
                   enclosure_length = stat_size stat,
                   itunes_image = coverUrl\<rparr> # items, w4)))"

text \<open>
  \<^verbatim>\<open>generateRssData(baseUrl)\<close>: the scan, the error on an empty library, the channel
  cover, the items, their order and number. \<open>now\<close> is the clock reading, in
  milliseconds, of its own \<^verbatim>\<open>var now = new Date()\<close>; the document keeps
  \<^verbatim>\<open>lastBuildDate: now.toUTCString()\<close>, which drops the milliseconds.
\<close>

definition generateRssData ::
  "config \<Rightarrow> platform \<Rightarrow> string \<Rightarrow> int \<Rightarrow> world \<Rightarrow> (error + rss_data) \<times> world" where
  "generateRssData cfg pf baseUrl now w =
     (let audioFiles = library w in
      if audioFiles = [] then (Inl NoAudioFilesFound, w)
      else
        (let (channelCoverUrl, w1) =
               (if channelImage cfg \<noteq> [] then processChannelCover cfg pf baseUrl w else ([], w));
             (items, w2) = build_items cfg pf baseUrl channelCoverUrl audioFiles w1
         in (Inr \<lparr>lastBuildDate = now div 1000,
                  channel_image = (if channelCoverUrl \<noteq> [] then channelCoverUrl else channelImage cfg),
                  item = limitedItems cfg items\<rparr>, w2)))"

section \<open>The feed cache and its two entry points\<close>

text \<open>
  \<^verbatim>\<open>let rssCache = { data: null, lastUpdated: 0, fileHash: '',
    cacheDuration: config.cache.rssCacheDuration || 5 * 60 * 1000 };\<close>
\<close>

record rss_cache =
  data :: "rss_data option"
  lastUpdated :: int
  fileHash :: string
  cacheDuration :: int

definition initial_rssCache :: "int \<Rightarrow> rss_cache" where
  "initial_rssCache rssCacheDuration =
     \<lparr>data = None, lastUpdated = 0, fileHash = [],
      cacheDuration = (if rssCacheDuration = 0 then 5 * 60 * 1000 else rssCacheDuration)\<rparr>"

text \<open>
  What a handler reads from its surroundings: the clock (\<^verbatim>\<open>Date.now()\<close>), the base URL
  of the request, the value that \<^verbatim>\<open>await getTracksFolderHash()\<close> returned, and the later
  clock reading of the \<^verbatim>\<open>new Date()\<close> inside \<^verbatim>\<open>generateRssData\<close>, should the handler
  call it.
\<close>

record request =
  now :: int
  baseUrl :: string
  currentFolderHash :: string
  buildDate :: int

text \<open>
  The server: the feed cache, the world of the pipeline, and a counter of the calls of
  \<^verbatim>\<open>generateRssData\<close>.
\<close>

record server =
  rssCache :: rss_cache
  world :: world
  rebuilds :: nat

text \<open>
  The answers: the feed built from \<^verbatim>\<open>rssCache.data\<close> with its \<^verbatim>\<open>Last-Modified\<close>
  instant, status 500, and the two JSON answers of \<^verbatim>\<open>/refresh-rss\<close> (the item count on
  success, the error otherwise).
\<close>

datatype response =
    RssXml rss_data int
  | ServerError
  | RefreshOk nat
  | RefreshFailed error

text \<open>
  \<^verbatim>\<open>var shouldRefreshCache = !rssCache.data ||
    (now - rssCache.lastUpdated) > rssCache.cacheDuration ||
    currentFolderHash !== rssCache.fileHash;\<close>
\<close>

definition shouldRefreshCache :: "rss_cache \<Rightarrow> request \<Rightarrow> bool" where
  "shouldRefreshCache c req =
     (data c = None \<or> now req - lastUpdated c > cacheDuration c \<or> currentFolderHash req \<noteq> fileHash c)"

text \<open>
  \<^verbatim>\<open>app.get('/rss.xml', ...)\<close>, one request handled from start to end:
  \<^verbatim>\<open>if (shouldRefreshCache) {
    rssCache.data = await generateRssData(baseUrl);
    rssCache.lastUpdated = now;
    rssCache.fileHash = currentFolderHash;
  }
  var xml = builder.build(rssCache.data);
  res.setHeader('Last-Modified', new Date(rssCache.lastUpdated).toUTCString());
  res.send(xml);\<close>
  with \<^verbatim>\<open>res.status(500).send('Server Error')\<close> in the \<^verbatim>\<open>catch\<close>. An exception of
  \<^verbatim>\<open>generateRssData\<close> leaves the \<^verbatim>\<open>try\<close> block before the assignment to
  \<^verbatim>\<open>rssCache.data\<close>.
\<close>

definition rss_xml :: "config \<Rightarrow> platform \<Rightarrow> request \<Rightarrow> server \<Rightarrow> response \<times> server" where
  "rss_xml cfg pf req s =
     (if shouldRefreshCache (rssCache s) req then
        (case generateRssData cfg pf (baseUrl req) (buildDate req) (world s) of
           (Inl e, w) \<Rightarrow> (ServerError, s\<lparr>world := w, rebuilds := rebuilds s + 1\<rparr>)
         | (Inr d, w) \<Rightarrow>
             (RssXml d (now req),
              s\<lparr>rssCache := (rssCache s)\<lparr>data := Some d, lastUpdated := now req,
                                         fileHash := currentFolderHash req\<rparr>,
                world := w, rebuilds := rebuilds s + 1\<rparr>))
      else
        (case data (rssCache s) of
           Some d \<Rightarrow> (RssXml d (lastUpdated (rssCache s)), s)
         | None \<Rightarrow> (ServerError, s)))"

text \<open>
  \<^verbatim>\<open>app.get('/refresh-rss', ...)\<close>:
  \<^verbatim>\<open>try {
    var baseUrl = getBaseUrl(req);
    var currentFolderHash = await getTracksFolderHash();
    rssCache.data = null;
    rssCache.lastUpdated = 0;
    rssCache.fileHash = '';
    var rssData = await generateRssData(baseUrl);
    rssCache.data = rssData;
    rssCache.lastUpdated = Date.now();
    rssCache.fileHash = currentFolderHash;
    res.json({ success: true, ..., itemsCount: rssData.rss.channel.item.length, ... });
  } catch (error) { res.status(500).json({ success: false, error: error.message }); }\<close>
\<close>

definition refresh_rss :: "config \<Rightarrow> platform \<Rightarrow> request \<Rightarrow> server \<Rightarrow> response \<times> server" where
  "refresh_rss cfg pf req s =
     (let cleared = (rssCache s)\<lparr>data := None, lastUpdated := 0, fileHash := []\<rparr> in
      case generateRssData cfg pf (baseUrl req) (buildDate req) (world s) of
        (Inl e, w) \<Rightarrow>
          (RefreshFailed e, s\<lparr>rssCache := cleared, world := w, rebuilds := rebuilds s + 1\<rparr>)
      | (Inr rssData, w) \<Rightarrow>
          (RefreshOk (length (item rssData)),
           s\<lparr>rssCache := cleared\<lparr>data := Some rssData, lastUpdated := now req,
                                   fileHash := currentFolderHash req\<rparr>,
             world := w, rebuilds := rebuilds s + 1\<rparr>))"

section \<open>Requests to /rss.xml that overlap\<close>

text \<open>
  Node runs a handler until its next \<^verbatim>\<open>await\<close> and lets other handlers run while the
  awaited promise is pending. The \<^verbatim>\<open>/rss.xml\<close> handler has two such points: it waits for
  \<^verbatim>\<open>getTracksFolderHash()\<close>, and, when the cache is to be refreshed, for
  \<^verbatim>\<open>generateRssData(baseUrl)\<close>. Between them it runs without interruption. A request in
  progress is therefore in one of two places, and the handlers of several requests
  interleave as a sequence of events: a request arrives (with the reading of
  \<^verbatim>\<open>Date.now()\<close> and its base URL), its hash is ready (with the hash and the reading of
  the \<^verbatim>\<open>new Date()\<close> of a build that starts then), its build is done. The work of a
  build (its reads, writes and result) is accounted for at the moment it starts.
\<close>

datatype task =
    Hashing int string
  | Building request "error + rss_data"

datatype event =
    Arrive nat int string
  | HashReady nat string int
  | BuildDone nat

record node =
  server :: server
  tasks :: "nat \<rightharpoonup> task"
  responses :: "(nat \<times> response) list"

fun step :: "config \<Rightarrow> platform \<Rightarrow> event \<Rightarrow> node \<Rightarrow> node" where
  "step cfg pf (Arrive rid t url) n = n\<lparr>tasks := (tasks n)(rid \<mapsto> Hashing t url)\<rparr>"
| "step cfg pf (HashReady rid h clock) n =
     (case tasks n rid of
        Some (Hashing t url) \<Rightarrow>
          (let req = \<lparr>now = t, baseUrl = url, currentFolderHash = h, buildDate = clock\<rparr>;
               s = server n in
           if shouldRefreshCache (rssCache s) req then
             (case generateRssData cfg pf url clock (world s) of
                (result, w) \<Rightarrow>
                  n\<lparr>server := s\<lparr>world := w, rebuilds := rebuilds s + 1\<rparr>,
                    tasks := (tasks n)(rid \<mapsto> Building req result)\<rparr>)
           else
             n\<lparr>tasks := (tasks n)(rid := None),
               responses := responses n @
                 [(rid, case data (rssCache s) of
                          Some d \<Rightarrow> RssXml d (lastUpdated (rssCache s))
                        | None \<Rightarrow> ServerError)]\<rparr>)
      | _ \<Rightarrow> n)"
| "step cfg pf (BuildDone rid) n =
     (case tasks n rid of
        Some (Building req (Inl e)) \<Rightarrow>
          n\<lparr>tasks := (tasks n)(rid := None), responses := responses n @ [(rid, ServerError)]\<rparr>
      | Some (Building req (Inr d)) \<Rightarrow>
          n\<lparr>server := (server n)\<lparr>rssCache := (rssCache (server n))
                 \<lparr>data := Some d, lastUpdated := now req, fileHash := currentFolderHash req\<rparr>\<rparr>,
            tasks := (tasks n)(rid := None),
            responses := responses n @ [(rid, RssXml d (now req))]\<rparr>
      | _ \<Rightarrow> n)"

fun run :: "config \<Rightarrow> platform \<Rightarrow> event list \<Rightarrow> node \<Rightarrow> node" where
  "run cfg pf [] n = n"
| "run cfg pf (e # es) n = run cfg pf es (step cfg pf e n)"

text \<open>The requests whose build has started and has not yet been stored.\<close>

definition building :: "node \<Rightarrow> nat \<Rightarrow> bool" where
  "building n rid = (case tasks n rid of Some (Building req result) \<Rightarrow> True | _ \<Rightarrow> False)"

section \<open>Concrete inputs\<close>

text \<open>
  The inputs at which the statements below are instantiated. The two digests of
  \<open>sample_platform\<close> pad their argument with zeros, or cut it, to the length of the real
  hex digest, so the sample identifiers and file names show the digested string itself.
  They stand for SHA-256 and MD5 at these inputs only: every general statement holds for
  all digest functions. The image header reader takes the first two bytes of a buffer as
  width and height.
\<close>

definition sample_platform :: platform where
  "sample_platform =
     \<lparr>sha256 = (\<lambda>s. Some (take 64 (s @ ''0000000000000000000000000000000000000000000000000000000000000000''))),
      md5 = (\<lambda>s. Some (take 32 (s @ ''00000000000000000000000000000000''))),
      sharp_metadata = (\<lambda>b. case b of w # h # rest \<Rightarrow> Some \<lparr>width = int w, height = int h\<rparr> | _ \<Rightarrow> None)\<rparr>"

definition sample_config :: config where
  "sample_config =
     \<lparr>coverSize = 1000, cropMode = ''crop'', generateSquareCovers = True, channelImage = [],
      maxTracksInRSS = 2\<rparr>"

definition track_a_stat :: stats where
  "track_a_stat = \<lparr>stat_size = 10, stat_mtime = 2000\<rparr>"

definition track_a_metadata :: track_metadata where
  "track_a_metadata = \<lparr>picture = Some [4000, 2000, 7], duration = Seconds 125\<rparr>"

definition track_a :: "audio_file \<times> (stats \<times> track_metadata option) option" where
  "track_a = (\<lparr>path = ''t/a.mp3'', folder = [], filename = ''a.mp3''\<rparr>,
              Some (track_a_stat, Some track_a_metadata))"

definition track_b :: "audio_file \<times> (stats \<times> track_metadata option) option" where
  "track_b = (\<lparr>path = ''t/b.mp3'', folder = [], filename = ''b.mp3''\<rparr>,
              Some (\<lparr>stat_size = 11, stat_mtime = 1000\<rparr>,
                    Some \<lparr>picture = None, duration = NoDuration\<rparr>))"

definition sample_world :: "(audio_file \<times> (stats \<times> track_metadata option) option) list \<Rightarrow> world" where
  "sample_world files =
     \<lparr>library = files, covers_cache = Map.empty, remote = (\<lambda>url. None),
      fileGuidCache = Map.empty, parse_calls = 0, crop_calls = 0\<rparr>"

text \<open>A configuration with a channel image, and a world in which that image can be fetched.\<close>

definition channel_config :: config where
  "channel_config = sample_config\<lparr>channelImage := ''http://img/c.jpg''\<rparr>"

definition remote_world :: world where
  "remote_world = (sample_world [])\<lparr>remote := (\<lambda>url. if url = ''http://img/c.jpg'' then Some [3000, 3000, 9] else None)\<rparr>"

definition sample_server :: "(audio_file \<times> (stats \<times> track_metadata option) option) list \<Rightarrow> server" where
  "sample_server files =
     \<lparr>rssCache = initial_rssCache 0, world = sample_world files, rebuilds = 0\<rparr>"

text \<open>A request at time \<open>t\<close> (in milliseconds) whose build, if any, starts at the same reading.\<close>

definition request_at :: "int \<Rightarrow> string \<Rightarrow> request" where
  "request_at t h = \<lparr>now = t, baseUrl = ''http://h'', currentFolderHash = h, buildDate = t\<rparr>"

definition item_at :: "string \<Rightarrow> int \<Rightarrow> feed_item" where
  "item_at g t = \<lparr>guid = g, pubDate = t, itunes_duration = ''00:00'', enclosure_length = 0,
                  itunes_image = None\<rparr>"

text \<open>
  The item of \<open>track_b\<close> and the document built from it alone in second \<open>t\<close> of the
  clock.
\<close>

definition track_b_item :: feed_item where
  "track_b_item =
     \<lparr>guid = ''urn:uuid:t/b.mp3:-1100-0000-0000-000000000000'', pubDate = 1,
      itunes_duration = ''00:00'', enclosure_length = 11, itunes_image = None\<rparr>"

definition feed_of_track_b :: "int \<Rightarrow> rss_data" where
  "feed_of_track_b t = \<lparr>lastBuildDate = t, channel_image = [], item = [track_b_item]\<rparr>"

text \<open>
  A server whose cache was filled by a request at time 1000, and the same server after
  the audio files on disk were replaced.
\<close>

definition warm_server :: server where
  "warm_server =
     snd (rss_xml sample_config sample_platform (request_at 1000 ''h1'') (sample_server [track_b]))"

definition with_library ::
  "(audio_file \<times> (stats \<times> track_metadata option) option) list \<Rightarrow> server \<Rightarrow> server" where
  "with_library files s = s\<lparr>world := (world s)\<lparr>library := files\<rparr>\<rparr>"

text \<open>
  A node whose cache entry, built at time 1000 with a duration of 300000 milliseconds,
  has grown stale, and requests that arrive there shortly after time 400000 and wait for
  their folder hash.
\<close>

definition stale_node :: node where
  "stale_node = \<lparr>server = warm_server, tasks = Map.empty, responses = []\<rparr>"

definition arrived :: "nat list \<Rightarrow> node" where
  "arrived rids =
     run sample_config sample_platform (map (\<lambda>rid. Arrive rid (400000 + int rid) ''http://h'') rids)
       stale_node"

section \<open>Evaluation at concrete inputs\<close>

lemmas string_eval = toString_def string_of_nat.simps digit_char_def padStart_def substring_def
  two_digits_def

lemmas sample_eval = sample_config_def sample_platform_def sample_world_def sample_server_def
  stale_node_def request_at_def track_a_def track_a_stat_def track_a_metadata_def track_b_def
  item_at_def initial_rssCache_def channel_config_def remote_world_def track_b_item_def
  feed_of_track_b_def

lemmas pipeline_eval = generateRssData_def processTrackCover_def processChannelCover_def
  track_coverFilename_def channel_coverFilename_def cropToSquare_def generateStableGuid_def
  uuid_shape_def limitedItems_def js_sort_def by_pubDate_def slice0_def js_rem_def Let_def

lemmas handler_eval = rss_xml_def refresh_rss_def shouldRefreshCache_def building_def

section \<open>formatDuration: the rendered forms\<close>

lemma floor_div_const: "0 < k \<Longrightarrow> \<lfloor>s / real_of_int k\<rfloor> = \<lfloor>s\<rfloor> div k"
  using floor_divide_real_eq_div[of k s] by simp

lemma js_rem_nonneg:
  assumes "0 \<le> s" "0 < k"
  shows "js_rem s (real_of_int k) = s - real_of_int (k * (\<lfloor>s\<rfloor> div k))"
proof -
  have "0 \<le> s / real_of_int k" using assms by simp
  then show ?thesis
    using assms by (simp add: js_rem_def floor_div_const)
qed

lemma floor_js_rem:
  assumes "0 \<le> s" "0 < k"
  shows "\<lfloor>js_rem s (real_of_int k)\<rfloor> = \<lfloor>s\<rfloor> mod k"
proof -
  have "\<lfloor>js_rem s (real_of_int k)\<rfloor> = \<lfloor>s\<rfloor> - k * (\<lfloor>s\<rfloor> div k)"
    unfolding js_rem_nonneg[OF assms] by (rule floor_diff_of_int)
  then show ?thesis by (simp add: minus_mult_div_eq_mod)
qed

lemma padStart_two_digits:
  assumes "n < 100"
  shows "padStart 2 (string_of_nat n) = two_digits n"
proof (cases "n < 10")
  case True
  then show ?thesis
    by (simp add: string_of_nat.simps[of n] padStart_def digit_char_def two_digits_def)
next
  case False
  with assms have "n div 10 < 10" by simp
  with False show ?thesis
    by (simp add: string_of_nat.simps[of n] string_of_nat.simps[of "n div 10"] padStart_def
        two_digits_def)
qed

lemma toString_nat: "0 \<le> i \<Longrightarrow> toString i = string_of_nat (nat i)"
  by (simp add: toString_def)

lemma formatDuration_pos:
  assumes "0 < s"
  shows "formatDuration (Seconds s) =
      (let t = nat \<lfloor>s\<rfloor>; h = t div 3600; m = t mod 3600 div 60; c = t mod 60
       in if 0 < h
          then string_of_nat h @ '':'' @ two_digits m @ '':'' @ two_digits c
          else string_of_nat m @ '':'' @ two_digits c)"
proof -
  define t where "t = nat \<lfloor>s\<rfloor>"
  have s0: "0 \<le> s" using assms by simp
  have ft: "\<lfloor>s\<rfloor> = int t" using s0 by (simp add: t_def)
  have hrs: "\<lfloor>s / 3600\<rfloor> = int (t div 3600)"
    using floor_div_const[of 3600 s] by (simp add: ft zdiv_int)
  have r3600: "\<lfloor>js_rem s 3600\<rfloor> = int (t mod 3600)"
    using floor_js_rem[OF s0, of 3600] by (simp add: ft zmod_int)
  have mins: "\<lfloor>js_rem s 3600 / 60\<rfloor> = int (t mod 3600 div 60)"
    using floor_div_const[of 60 "js_rem s 3600"] by (simp add: r3600 zdiv_int)
  have secs: "\<lfloor>js_rem s 60\<rfloor> = int (t mod 60)"
    using floor_js_rem[OF s0, of 60] by (simp add: ft zmod_int)
  have m: "t mod 3600 div 60 < 100"
    by (rule less_trans[of _ 60]) (simp_all add: less_mult_imp_div_less)
  have c: "t mod 60 < 100" by (rule less_trans[of _ 60]) simp_all
  show ?thesis
    using assms
    by (simp add: hrs mins secs toString_nat Let_def t_def[symmetric]
        padStart_two_digits[OF m] padStart_two_digits[OF c])
qed

text \<open>
  C8. For a duration of \<open>s > 0\<close> seconds, with \<open>t\<close> the whole seconds of \<open>s\<close>,
  \<^verbatim>\<open>formatDuration\<close> renders \<^verbatim>\<open>H:MM:SS\<close> when the hour component \<open>t div 3600\<close> is not zero
  and \<^verbatim>\<open>M:SS\<close> when it is zero: the hours and, without hours, the minutes in plain
  decimal, every later component in exactly two digits. A duration of 0 seconds renders
  as \<^verbatim>\<open>00:00\<close>, 125 seconds as \<^verbatim>\<open>2:05\<close>, 3725 seconds as \<^verbatim>\<open>1:02:05\<close>.
\<close>

theorem formatDuration_forms:
  "(0 < s \<longrightarrow>
      formatDuration (Seconds s) =
        (let t = nat \<lfloor>s\<rfloor>; h = t div 3600; m = t mod 3600 div 60; c = t mod 60
         in if 0 < h
            then string_of_nat h @ '':'' @ two_digits m @ '':'' @ two_digits c
            else string_of_nat m @ '':'' @ two_digits c))
   \<and> formatDuration (Seconds 0) = ''00:00''
   \<and> formatDuration (Seconds 125) = ''2:05''
   \<and> formatDuration (Seconds 3725) = ''1:02:05''"
proof (intro conjI impI)
  assume "0 < s"
  then show "formatDuration (Seconds s) =
        (let t = nat \<lfloor>s\<rfloor>; h = t div 3600; m = t mod 3600 div 60; c = t mod 60
         in if 0 < h
            then string_of_nat h @ '':'' @ two_digits m @ '':'' @ two_digits c
            else string_of_nat m @ '':'' @ two_digits c)"
    by (rule formatDuration_pos)
next
  show "formatDuration (Seconds 0) = ''00:00''" by simp
next
  show "formatDuration (Seconds 125) = ''2:05''"
    by (simp add: js_rem_def string_eval)
next
  show "formatDuration (Seconds 3725) = ''1:02:05''"
    by (simp add: js_rem_def string_eval)
qed

text \<open>The statement of C8 at 7384.5 seconds: two hours, three minutes, four seconds.\<close>

theorem formatDuration_forms_witness:
  "(0::real) < 7384.5 \<and> formatDuration (Seconds 7384.5) = ''2:03:04''"
  using formatDuration_forms[of "7384.5"]
  by (simp del: formatDuration.simps add: string_eval Let_def)

section \<open>getTagValue: the walk and the sentinel\<close>

lemma inner_array_addressed: "inner_array v ps \<Longrightarrow> addressed v ps = Undefined"
  by (induction v ps rule: inner_array.induct) simp_all

lemma getTagValue_loop_plain:
  "\<not> inner_array v ps \<Longrightarrow>
     (case getTagValue_loop v ps of None \<Rightarrow> Null | Some w \<Rightarrow> or_null (unwrap_first w))
       = or_null (unwrap_first (addressed v ps))"
  by (induction v ps rule: getTagValue_loop.induct) (simp_all add: or_null_def)

lemma getTagValue_plain:
  "\<not> inner_array metadata (split_on CHR ''.'' tagPath) \<Longrightarrow>
     getTagValue metadata tagPath =
       or_null (unwrap_first (addressed metadata (split_on CHR ''.'' tagPath)))"
  by (simp add: getTagValue_def getTagValue_loop_plain)

lemma or_null_Null: "(or_null v = Null) = (\<not> truthy v)"
  by (cases v) (simp_all add: or_null_def)

lemma split_on_nonempty: "split_on c s \<noteq> []"
  by (induction s) (simp_all split: list.splits)

lemma getTagValue_empty_object: "getTagValue (Obj []) tagPath = Null"
proof -
  obtain p ps where sp: "split_on CHR ''.'' tagPath = p # ps"
    using split_on_nonempty[of "CHR ''.''" tagPath] by (cases "split_on CHR ''.'' tagPath") auto
  show ?thesis
    by (cases ps) (simp_all add: getTagValue_def sp get_prop_def or_null_def)
qed

text \<open>
  An array met before the end of the path is replaced by its first element in place of
  the lookup of the current part, so the part is lost: the path \<^verbatim>\<open>a.b\<close> on
  \<^verbatim>\<open>{a: [{b: 1}]}\<close> yields the object \<^verbatim>\<open>{b: 1}\<close>, not \<^verbatim>\<open>1\<close>.
\<close>

lemma getTagValue_inner_array_example:
  "getTagValue (Obj [(''a'', Arr [Obj [(''b'', Num 1)]])]) ''a.b'' = Obj [(''b'', Num 1)]"
  by (simp add: getTagValue_def get_prop_def or_null_def)

text \<open>
  C9, as amended. For every metadata object and dotted path along which no array is met
  before the last part, \<^verbatim>\<open>getTagValue\<close> returns the value the path addresses through the
  nested objects, a final array replaced by its first element, when that value is truthy,
  and \<^verbatim>\<open>null\<close> otherwise: it returns \<^verbatim>\<open>null\<close> exactly when the addressed value is absent
  or falsy.
\<close>

theorem getTagValue_walks_plain_path:
  assumes "\<not> inner_array metadata (split_on CHR ''.'' tagPath)"
  shows "getTagValue metadata tagPath =
           or_null (unwrap_first (addressed metadata (split_on CHR ''.'' tagPath)))
       \<and> ((getTagValue metadata tagPath = Null) =
            (\<not> truthy (unwrap_first (addressed metadata (split_on CHR ''.'' tagPath)))))"
  using assms by (simp add: getTagValue_plain or_null_Null)

text \<open>The statement of C9 at \<^verbatim>\<open>common.genre\<close> of a parsed file with two genres.\<close>

theorem getTagValue_walks_plain_path_witness:
  "\<not> inner_array (Obj [(''common'', Obj [(''title'', Str ''Intro''), (''genre'', Arr [Str ''House'', Str ''Techno''])])])
        (split_on CHR ''.'' ''common.genre'')
   \<and> getTagValue (Obj [(''common'', Obj [(''title'', Str ''Intro''), (''genre'', Arr [Str ''House'', Str ''Techno''])])])
        ''common.genre'' = Str ''House''"
  using getTagValue_walks_plain_path
    [of "Obj [(''common'', Obj [(''title'', Str ''Intro''), (''genre'', Arr [Str ''House'', Str ''Techno''])])]"
        "''common.genre''"]
  by (simp add: get_prop_def or_null_def)

text \<open>
  C9 as first stated fails: \<^verbatim>\<open>format.lossless\<close> is present with the value \<^verbatim>\<open>false\<close>, and
  the accessor returns \<^verbatim>\<open>null\<close>.
\<close>

theorem getTagValue_null_for_present_counterexample:
  "addressed (Obj [(''format'', Obj [(''lossless'', Bool False), (''duration'', Num 125)])])
      (split_on CHR ''.'' ''format.lossless'') = Bool False
   \<and> getTagValue (Obj [(''format'', Obj [(''lossless'', Bool False), (''duration'', Num 125)])])
      ''format.lossless'' = Null"
  by (simp add: getTagValue_def get_prop_def or_null_def)

text \<open>
  C10. For every metadata object and dotted path whose addressed value is present but
  falsy (the number 0, the empty string or \<^verbatim>\<open>false\<close>, alone or as the first element of
  an array), \<^verbatim>\<open>getTagValue\<close> returns \<^verbatim>\<open>null\<close>, which is also what it returns on a
  metadata object with no tag at all.
\<close>

theorem getTagValue_falsy_is_null:
  assumes "unwrap_first (addressed metadata (split_on CHR ''.'' tagPath)) = Num 0
         \<or> unwrap_first (addressed metadata (split_on CHR ''.'' tagPath)) = Str []
         \<or> unwrap_first (addressed metadata (split_on CHR ''.'' tagPath)) = Bool False"
  shows "getTagValue metadata tagPath = Null
       \<and> getTagValue metadata tagPath = getTagValue (Obj []) tagPath"
proof -
  have "addressed metadata (split_on CHR ''.'' tagPath) \<noteq> Undefined"
    using assms by auto
  then have "\<not> inner_array metadata (split_on CHR ''.'' tagPath)"
    using inner_array_addressed by blast
  then have "getTagValue metadata tagPath = Null"
    using assms by (auto simp add: getTagValue_plain or_null_def)
  then show ?thesis by (simp add: getTagValue_empty_object)
qed

text \<open>The statement of C10 at a title tag that is the empty string.\<close>

theorem getTagValue_falsy_is_null_witness:
  "unwrap_first (addressed (Obj [(''common'', Obj [(''title'', Str []), (''artist'', Str ''DJ'')])])
      (split_on CHR ''.'' ''common.title'')) = Str []
   \<and> getTagValue (Obj [(''common'', Obj [(''title'', Str []), (''artist'', Str ''DJ'')])]) ''common.title'' = Null"
  using getTagValue_falsy_is_null
    [of "Obj [(''common'', Obj [(''title'', Str []), (''artist'', Str ''DJ'')])]" "''common.title''"]
  by (simp add: get_prop_def)


section \<open>generateRssData: order and number of the items\<close>

lemma js_insert_insort: "js_insert by_pubDate x ys = insort_key (\<lambda>i. - pubDate i) x ys"
  by (induction ys) (simp_all add: by_pubDate_def)

lemma js_sort_sort_key: "js_sort by_pubDate xs = sort_key (\<lambda>i. - pubDate i) xs"
  by (induction xs) (simp_all add: js_sort_def js_insert_insort)

lemma slice0_take: "0 \<le> k \<Longrightarrow> slice0 (min (int (length xs)) k) xs = take (nat k) xs"
  by (simp add: slice0_def Let_def min_def)

text \<open>
  C7. For every list of assembled items, the items are sorted by publication timestamp,
  most recent first (the result is a rearrangement of the items in descending order of
  \<open>pubDate\<close>), items with the same timestamp keep their scan order, and the configured
  maximum count (not negative) keeps that many items from the front of the sorted list.
  Items with timestamps \<open>[T2, T1, T3]\<close>, \<open>T3 > T2 > T1\<close>, sort to \<open>[T3, T2, T1]\<close>, and
  a maximum of 2 yields \<open>[T3, T2]\<close>.
\<close>

theorem limitedItems_newest_first:
  "(0 \<le> maxTracksInRSS cfg \<longrightarrow>
      limitedItems cfg items = take (nat (maxTracksInRSS cfg)) (js_sort by_pubDate items))
   \<and> sorted_wrt (\<lambda>a b. pubDate b \<le> pubDate a) (js_sort by_pubDate items)
   \<and> mset (js_sort by_pubDate items) = mset items
   \<and> (\<forall>t. filter (\<lambda>i. pubDate i = t) (js_sort by_pubDate items) = filter (\<lambda>i. pubDate i = t) items)
   \<and> (pubDate i1 < pubDate i2 \<and> pubDate i2 < pubDate i3 \<and> maxTracksInRSS cfg = 2 \<longrightarrow>
        js_sort by_pubDate [i2, i1, i3] = [i3, i2, i1] \<and> limitedItems cfg [i2, i1, i3] = [i3, i2])"
proof (intro conjI allI impI)
  assume "0 \<le> maxTracksInRSS cfg"
  then show "limitedItems cfg items = take (nat (maxTracksInRSS cfg)) (js_sort by_pubDate items)"
    by (simp add: limitedItems_def Let_def slice0_take)
next
  have "sorted (map (\<lambda>i. - pubDate i) (js_sort by_pubDate items))"
    by (simp add: js_sort_sort_key)
  then show "sorted_wrt (\<lambda>a b. pubDate b \<le> pubDate a) (js_sort by_pubDate items)"
    by (simp add: sorted_map)
next
  show "mset (js_sort by_pubDate items) = mset items"
    by (simp add: js_sort_sort_key)
next
  fix t
  have "filter (\<lambda>i. - pubDate i = - t) (sort_key (\<lambda>i. - pubDate i) items)
          = filter (\<lambda>i. - pubDate i = - t) items"
    by (rule sort_key_stable)
  then show "filter (\<lambda>i. pubDate i = t) (js_sort by_pubDate items) = filter (\<lambda>i. pubDate i = t) items"
    by (simp add: js_sort_sort_key)
next
  assume a: "pubDate i1 < pubDate i2 \<and> pubDate i2 < pubDate i3 \<and> maxTracksInRSS cfg = 2"
  then show "js_sort by_pubDate [i2, i1, i3] = [i3, i2, i1]"
    by (simp add: js_sort_def by_pubDate_def)
  with a show "limitedItems cfg [i2, i1, i3] = [i3, i2]"
    by (simp add: limitedItems_def slice0_def Let_def)
qed

text \<open>
  The statement of C7 at four items, two of them with the same timestamp, and a maximum
  of two: the newest comes first, then the earlier scanned of the two equal ones; and
  at three items with timestamps 20, 10, 30.
\<close>

theorem limitedItems_newest_first_witness:
  "0 \<le> maxTracksInRSS sample_config
   \<and> limitedItems sample_config [item_at ''b'' 20, item_at ''a'' 10, item_at ''c'' 30, item_at ''d'' 20]
       = [item_at ''c'' 30, item_at ''b'' 20]
   \<and> filter (\<lambda>i. pubDate i = 20)
        (js_sort by_pubDate [item_at ''b'' 20, item_at ''a'' 10, item_at ''c'' 30, item_at ''d'' 20])
       = [item_at ''b'' 20, item_at ''d'' 20]
   \<and> pubDate (item_at ''a'' 10) < pubDate (item_at ''b'' 20)
   \<and> pubDate (item_at ''b'' 20) < pubDate (item_at ''c'' 30)
   \<and> maxTracksInRSS sample_config = 2
   \<and> js_sort by_pubDate [item_at ''b'' 20, item_at ''a'' 10, item_at ''c'' 30]
       = [item_at ''c'' 30, item_at ''b'' 20, item_at ''a'' 10]
   \<and> limitedItems sample_config [item_at ''b'' 20, item_at ''a'' 10, item_at ''c'' 30]
       = [item_at ''c'' 30, item_at ''b'' 20]"
proof -
  have order: "pubDate (item_at ''a'' 10) < pubDate (item_at ''b'' 20)"
      "pubDate (item_at ''b'' 20) < pubDate (item_at ''c'' 30)"
    by (simp_all add: item_at_def)
  have count: "maxTracksInRSS sample_config = 2" "0 \<le> maxTracksInRSS sample_config"
    by (simp_all add: sample_config_def)
  note four = limitedItems_newest_first
    [where cfg = sample_config
       and items = "[item_at ''b'' 20, item_at ''a'' 10, item_at ''c'' 30, item_at ''d'' 20]"
       and ?i1.0 = "item_at ''a'' 10" and ?i2.0 = "item_at ''b'' 20" and ?i3.0 = "item_at ''c'' 30"]
  have cut: "limitedItems sample_config [item_at ''b'' 20, item_at ''a'' 10, item_at ''c'' 30, item_at ''d'' 20]
       = take (nat (maxTracksInRSS sample_config))
           (js_sort by_pubDate [item_at ''b'' 20, item_at ''a'' 10, item_at ''c'' 30, item_at ''d'' 20])"
    using four count by blast
  have stable: "filter (\<lambda>i. pubDate i = 20)
        (js_sort by_pubDate [item_at ''b'' 20, item_at ''a'' 10, item_at ''c'' 30, item_at ''d'' 20])
       = filter (\<lambda>i. pubDate i = 20) [item_at ''b'' 20, item_at ''a'' 10, item_at ''c'' 30, item_at ''d'' 20]"
    using four by blast
  have three: "js_sort by_pubDate [item_at ''b'' 20, item_at ''a'' 10, item_at ''c'' 30]
       = [item_at ''c'' 30, item_at ''b'' 20, item_at ''a'' 10]
     \<and> limitedItems sample_config [item_at ''b'' 20, item_at ''a'' 10, item_at ''c'' 30]
       = [item_at ''c'' 30, item_at ''b'' 20]"
    using four order count by blast
  have sorted4: "js_sort by_pubDate [item_at ''b'' 20, item_at ''a'' 10, item_at ''c'' 30, item_at ''d'' 20]
       = [item_at ''c'' 30, item_at ''b'' 20, item_at ''d'' 20, item_at ''a'' 10]"
    by (simp add: js_sort_def by_pubDate_def item_at_def)
  show ?thesis
    using order count three
    by (simp add: cut stable sorted4) (simp add: item_at_def)
qed

section \<open>cropToSquare: the crop region\<close>

text \<open>
  C6. For every source image with known positive width \<open>w\<close> and height \<open>h\<close> and every
  positive target size, crop mode (configured, or by default when no mode is configured)
  takes the centred square of side \<open>min w h\<close> at \<open>left = \<lfloor>(w - min w h) / 2\<rfloor>\<close> and
  \<open>top = \<lfloor>(h - min w h) / 2\<rfloor>\<close> and scales it to \<open>target \<times> target\<close>: the code extracts
  exactly that region and resizes it, except for a source that is already
  \<open>target \<times> target\<close>, where that square is the whole image at left 0, top 0, its side is
  the target, and the code only encodes the image as JPEG again. The square lies inside
  the image and is centred: the margins on opposite sides differ by at most one pixel.
\<close>

theorem cropToSquare_crop_mode:
  assumes "sharp_metadata pf imageBuffer = Some \<lparr>width = w, height = h\<rparr>"
    and "0 < w" and "0 < h" and "0 < target"
    and "cropMode cfg = ''crop'' \<or> cropMode cfg = []"
  shows "cropToSquare cfg pf imageBuffer target =
           (if w = h \<and> w = target then Inr [Jpeg 90]
            else Inr [Extract ((w - min w h) div 2) ((h - min w h) div 2) (min w h) (min w h),
                      Resize target target Fill, Jpeg 90])
       \<and> 0 \<le> (w - min w h) div 2 \<and> (w - min w h) div 2 + min w h \<le> w
       \<and> 0 \<le> (h - min w h) div 2 \<and> (h - min w h) div 2 + min w h \<le> h
       \<and> (w - ((w - min w h) div 2 + min w h)) - (w - min w h) div 2 \<in> {0, 1}
       \<and> (h - ((h - min w h) div 2 + min w h)) - (h - min w h) div 2 \<in> {0, 1}
       \<and> (w = h \<and> w = target \<longrightarrow>
            (w - min w h) div 2 = 0 \<and> (h - min w h) div 2 = 0 \<and> min w h = w \<and> min w h = h
          \<and> min w h = target)"
proof -
  have "cropToSquare cfg pf imageBuffer target =
           (if w = h \<and> w = target then Inr [Jpeg 90]
            else Inr [Extract ((w - min w h) div 2) ((h - min w h) div 2) (min w h) (min w h),
                      Resize target target Fill, Jpeg 90])"
    using assms by (auto simp add: cropToSquare_def Let_def)
  moreover have "0 \<le> (w - min w h) div 2 \<and> (w - min w h) div 2 + min w h \<le> w
       \<and> (w - ((w - min w h) div 2 + min w h)) - (w - min w h) div 2 \<in> {0, 1}"
    using assms by (auto simp: min_def)
  moreover have "0 \<le> (h - min w h) div 2 \<and> (h - min w h) div 2 + min w h \<le> h
       \<and> (h - ((h - min w h) div 2 + min w h)) - (h - min w h) div 2 \<in> {0, 1}"
    using assms by (auto simp: min_def)
  moreover have "w = h \<and> w = target \<longrightarrow>
            (w - min w h) div 2 = 0 \<and> (h - min w h) div 2 = 0 \<and> min w h = w \<and> min w h = h
          \<and> min w h = target"
    by simp
  ultimately show ?thesis by blast
qed

text \<open>
  The statement of C6 at a 4000 by 2000 source and target 1000: the region 2000 by 2000
  at left 1000, top 0, scaled to 1000 by 1000; and at a source that is already 1000 by
  1000, where the centred square is the whole image and the image is only encoded again.
\<close>

theorem cropToSquare_crop_mode_witness:
  "sharp_metadata sample_platform [4000, 2000, 7] = Some \<lparr>width = 4000, height = 2000\<rparr>
   \<and> cropMode sample_config = ''crop''
   \<and> cropToSquare sample_config sample_platform [4000, 2000, 7] 1000
       = Inr [Extract 1000 0 2000 2000, Resize 1000 1000 Fill, Jpeg 90]
   \<and> sharp_metadata sample_platform [1000, 1000, 7] = Some \<lparr>width = 1000, height = 1000\<rparr>
   \<and> cropToSquare sample_config sample_platform [1000, 1000, 7] 1000 = Inr [Jpeg 90]
   \<and> (1000 - min 1000 1000) div 2 = (0::int) \<and> min 1000 1000 = (1000::int)"
proof -
  have m: "sharp_metadata sample_platform [4000, 2000, 7] = Some \<lparr>width = 4000, height = 2000\<rparr>"
    by (simp add: sample_platform_def)
  have m': "sharp_metadata sample_platform [1000, 1000, 7] = Some \<lparr>width = 1000, height = 1000\<rparr>"
    by (simp add: sample_platform_def)
  have c: "cropMode sample_config = ''crop''"
    by (simp add: sample_config_def)
  then have c': "cropMode sample_config = ''crop'' \<or> cropMode sample_config = []"
    by simp
  from cropToSquare_crop_mode[OF m _ _ _ c', of 1000] cropToSquare_crop_mode[OF m' _ _ _ c', of 1000]
    m m' c
  show ?thesis
    by simp
qed

section \<open>generateStableGuid: one identifier per path and size\<close>

lemma guid_table_step:
  assumes "\<forall>k g. tab k = Some g \<longrightarrow> (\<exists>hash. sha256 pf k = Some hash \<and> g = ''urn:uuid:'' @ uuid_shape hash)"
  shows "\<forall>k g. snd (generateStableGuid pf filePath stat tab) k = Some g \<longrightarrow>
           (\<exists>hash. sha256 pf k = Some hash \<and> g = ''urn:uuid:'' @ uuid_shape hash)"
  using assms by (auto simp: generateStableGuid_def Let_def split: option.splits if_splits)

lemma guid_table_calls:
  assumes "\<forall>k g. tab k = Some g \<longrightarrow> (\<exists>hash. sha256 pf k = Some hash \<and> g = ''urn:uuid:'' @ uuid_shape hash)"
  shows "\<forall>k g. guid_calls pf calls tab k = Some g \<longrightarrow>
           (\<exists>hash. sha256 pf k = Some hash \<and> g = ''urn:uuid:'' @ uuid_shape hash)"
  using assms
proof (induction calls arbitrary: tab)
  case Nil
  then show ?case by simp
next
  case (Cons c calls)
  obtain filePath stat where c: "c = (filePath, stat)" by (cases c)
  show ?case
    unfolding c guid_calls.simps
    by (rule Cons.IH) (rule guid_table_step[OF Cons.prems])
qed

lemma generateStableGuid_value:
  assumes "\<forall>k g. tab k = Some g \<longrightarrow> (\<exists>hash. sha256 pf k = Some hash \<and> g = ''urn:uuid:'' @ uuid_shape hash)"
  shows "fst (generateStableGuid pf filePath stat tab) =
     (case sha256 pf (filePath @ '':'' @ toString (stat_size stat)) of
        Some hash \<Rightarrow> Some (''urn:uuid:'' @ uuid_shape hash)
      | None \<Rightarrow> map_option (\<lambda>backupHash. ''urn:uuid:'' @ uuid_shape backupHash) (md5 pf filePath))"
  using assms by (fastforce simp: generateStableGuid_def Let_def split: option.splits)

text \<open>The shape: 8, 4, 4, 4 and 12 characters of the digest, hyphens between them.\<close>

lemma uuid_shape_length: "32 \<le> length hash \<Longrightarrow> length (uuid_shape hash) = 36"
  by (simp add: uuid_shape_def substring_def)

text \<open>
  C3. For every path and size, at every moment of a process (after any calls since the
  process started with an empty memo table), \<^verbatim>\<open>generateStableGuid\<close> returns the URN marker
  followed by the UUID shape of the SHA-256 digest of \<^verbatim>\<open>path:size\<close> (of the MD5 digest of
  the path where the first digest throws): a function of the path and the size alone.
  Another modification time, and another process with another history of calls, give
  the same identifier.
\<close>

theorem generateStableGuid_deterministic:
  "fst (generateStableGuid pf filePath stat (guid_calls pf calls Map.empty)) =
     (case sha256 pf (filePath @ '':'' @ toString (stat_size stat)) of
        Some hash \<Rightarrow> Some (''urn:uuid:'' @ uuid_shape hash)
      | None \<Rightarrow> map_option (\<lambda>backupHash. ''urn:uuid:'' @ uuid_shape backupHash) (md5 pf filePath))
   \<and> fst (generateStableGuid pf filePath (stat\<lparr>stat_mtime := t\<rparr>) (guid_calls pf calls' Map.empty)) =
       fst (generateStableGuid pf filePath stat (guid_calls pf calls Map.empty))"
proof -
  have inv: "\<forall>k g. guid_calls pf cs Map.empty k = Some g \<longrightarrow>
           (\<exists>hash. sha256 pf k = Some hash \<and> g = ''urn:uuid:'' @ uuid_shape hash)" for cs
    by (rule guid_table_calls) simp
  show ?thesis
    by (simp add: generateStableGuid_value[OF inv])
qed

text \<open>
  The statement of C3 at one file: asked again after other calls, and asked in a fresh
  process with a later modification time, it gets the same identifier.
\<close>

theorem generateStableGuid_deterministic_witness:
  "fst (generateStableGuid sample_platform ''t/a.mp3'' \<lparr>stat_size = 10, stat_mtime = 2000\<rparr>
         (guid_calls sample_platform
            [(''t/a.mp3'', \<lparr>stat_size = 10, stat_mtime = 2000\<rparr>), (''t/b.mp3'', \<lparr>stat_size = 11, stat_mtime = 1000\<rparr>)]
            Map.empty))
     = Some ''urn:uuid:t/a.mp3:-1000-0000-0000-000000000000''
   \<and> fst (generateStableGuid sample_platform ''t/a.mp3'' \<lparr>stat_size = 10, stat_mtime = 9999\<rparr>
         (guid_calls sample_platform [] Map.empty))
     = Some ''urn:uuid:t/a.mp3:-1000-0000-0000-000000000000''"
  using generateStableGuid_deterministic
    [of sample_platform "''t/a.mp3''" "\<lparr>stat_size = 10, stat_mtime = 2000\<rparr>"
        "[(''t/a.mp3'', \<lparr>stat_size = 10, stat_mtime = 2000\<rparr>), (''t/b.mp3'', \<lparr>stat_size = 11, stat_mtime = 1000\<rparr>)]"
        9999 "[]"]
  by (simp add: sample_platform_def uuid_shape_def string_eval)


section \<open>Cover derivation: the cache key and the stored asset\<close>

lemma processTrackCover_hit:
  assumes "picture metadata = Some picture_data"
    and "md5 pf (filePath @ '':'' @ toString (stat_size stat)) = Some hash"
    and "track_coverFilename cfg hash \<in> dom (covers_cache w)"
  shows "processTrackCover cfg pf metadata filePath stat base w =
           (Some (base @ ''/covers_cache/'' @ track_coverFilename cfg hash), w)"
  using assms by (simp add: processTrackCover_def Let_def)

lemma processTrackCover_stores:
  assumes "processTrackCover cfg pf metadata filePath stat base w = (Some url, w')"
  shows "\<exists>hash. md5 pf (filePath @ '':'' @ toString (stat_size stat)) = Some hash
            \<and> url = base @ ''/covers_cache/'' @ track_coverFilename cfg hash
            \<and> track_coverFilename cfg hash \<in> dom (covers_cache w')
            \<and> crop_calls w' \<le> crop_calls w + 1"
  using assms
  by (auto simp: processTrackCover_def Let_def split: option.splits if_splits sum.splits)

lemma processChannelCover_hit:
  assumes "channelImage cfg \<noteq> []"
    and "md5 pf (channelImage cfg) = Some hash"
    and "channel_coverFilename cfg hash \<in> dom (covers_cache w)"
  shows "processChannelCover cfg pf base w =
           (base @ ''/covers_cache/'' @ channel_coverFilename cfg hash, w)"
  using assms by (simp add: processChannelCover_def Let_def)

lemma processChannelCover_stores:
  assumes "processChannelCover cfg pf base w = (url, w')" and "url \<noteq> []"
  shows "\<exists>hash. channelImage cfg \<noteq> [] \<and> md5 pf (channelImage cfg) = Some hash
            \<and> url = base @ ''/covers_cache/'' @ channel_coverFilename cfg hash
            \<and> channel_coverFilename cfg hash \<in> dom (covers_cache w')
            \<and> crop_calls w' \<le> crop_calls w + 1"
  using assms
  by (auto simp: processChannelCover_def Let_def split: option.splits if_splits sum.splits)

text \<open>
  C4, as amended. The cache key of a track cover is the file name made of the first 12
  characters of the MD5 digest of the track's \<^verbatim>\<open>path:size\<close> and the target size; the key
  of the channel cover is made in the same way from the MD5 digest of the channel image
  URL. The embedded picture bytes are not part of the key. For every request whose key
  names a file of the covers directory, the URL of that file is returned and nothing else
  happens: the world, with its count of \<^verbatim>\<open>cropToSquare\<close> calls, is unchanged. A request
  that returned a URL called \<^verbatim>\<open>cropToSquare\<close> at most once, and every later request for
  the same path and size (the same channel image) returns the same URL without deriving.
\<close>

theorem cover_cache_keyed_by_file:
  "(picture metadata = Some picture_data
      \<and> md5 pf (filePath @ '':'' @ toString (stat_size stat)) = Some hash
      \<and> track_coverFilename cfg hash \<in> dom (covers_cache w)
    \<longrightarrow> processTrackCover cfg pf metadata filePath stat base w =
          (Some (base @ ''/covers_cache/'' @ track_coverFilename cfg hash), w))
   \<and> (channelImage cfg \<noteq> [] \<and> md5 pf (channelImage cfg) = Some hash'
      \<and> channel_coverFilename cfg hash' \<in> dom (covers_cache w)
    \<longrightarrow> processChannelCover cfg pf base w =
          (base @ ''/covers_cache/'' @ channel_coverFilename cfg hash', w))
   \<and> (processTrackCover cfg pf metadata filePath stat base w = (Some url, w1)
      \<and> picture metadata' \<noteq> None \<and> stat_size stat' = stat_size stat
    \<longrightarrow> crop_calls w1 \<le> crop_calls w + 1
        \<and> processTrackCover cfg pf metadata' filePath stat' base w1 = (Some url, w1))
   \<and> (processChannelCover cfg pf base w = (curl, w2) \<and> curl \<noteq> []
    \<longrightarrow> crop_calls w2 \<le> crop_calls w + 1
        \<and> processChannelCover cfg pf base w2 = (curl, w2))"
proof (intro conjI impI)
  assume "picture metadata = Some picture_data
      \<and> md5 pf (filePath @ '':'' @ toString (stat_size stat)) = Some hash
      \<and> track_coverFilename cfg hash \<in> dom (covers_cache w)"
  then show "processTrackCover cfg pf metadata filePath stat base w =
          (Some (base @ ''/covers_cache/'' @ track_coverFilename cfg hash), w)"
    by (simp add: processTrackCover_hit)
next
  assume "channelImage cfg \<noteq> [] \<and> md5 pf (channelImage cfg) = Some hash'
      \<and> channel_coverFilename cfg hash' \<in> dom (covers_cache w)"
  then show "processChannelCover cfg pf base w =
          (base @ ''/covers_cache/'' @ channel_coverFilename cfg hash', w)"
    by (simp add: processChannelCover_hit)
next
  assume a: "processTrackCover cfg pf metadata filePath stat base w = (Some url, w1)
      \<and> picture metadata' \<noteq> None \<and> stat_size stat' = stat_size stat"
  then obtain hash where h: "md5 pf (filePath @ '':'' @ toString (stat_size stat)) = Some hash"
      "url = base @ ''/covers_cache/'' @ track_coverFilename cfg hash"
      "track_coverFilename cfg hash \<in> dom (covers_cache w1)"
      "crop_calls w1 \<le> crop_calls w + 1"
    using processTrackCover_stores by blast
  from h show "crop_calls w1 \<le> crop_calls w + 1" by simp
  from a obtain d where "picture metadata' = Some d" by auto
  with a h show "processTrackCover cfg pf metadata' filePath stat' base w1 = (Some url, w1)"
    by (simp add: processTrackCover_hit)
next
  assume a: "processChannelCover cfg pf base w = (curl, w2) \<and> curl \<noteq> []"
  then obtain hash where h: "channelImage cfg \<noteq> []" "md5 pf (channelImage cfg) = Some hash"
      "curl = base @ ''/covers_cache/'' @ channel_coverFilename cfg hash"
      "channel_coverFilename cfg hash \<in> dom (covers_cache w2)"
      "crop_calls w2 \<le> crop_calls w + 1"
    using processChannelCover_stores by blast
  from h show "crop_calls w2 \<le> crop_calls w + 1" by simp
  from h show "processChannelCover cfg pf base w2 = (curl, w2)"
    by (simp add: processChannelCover_hit)
qed

text \<open>
  The statement of C4 at one track and at the channel image: the first request derives
  the cover, the second is answered from the covers directory.
\<close>

theorem cover_cache_keyed_by_file_witness:
  "fst (processTrackCover channel_config sample_platform track_a_metadata ''t/a.mp3'' track_a_stat
          ''http://h'' (sample_world []))
     = Some ''http://h/covers_cache/track_t/a.mp3:1000_1000.jpg''
   \<and> processTrackCover channel_config sample_platform track_a_metadata ''t/a.mp3'' track_a_stat ''http://h''
        (snd (processTrackCover channel_config sample_platform track_a_metadata ''t/a.mp3'' track_a_stat
                ''http://h'' (sample_world [])))
     = processTrackCover channel_config sample_platform track_a_metadata ''t/a.mp3'' track_a_stat
         ''http://h'' (sample_world [])
   \<and> fst (processChannelCover channel_config sample_platform ''http://h'' remote_world)
     = ''http://h/covers_cache/channel_http://img/c_1000.jpg''
   \<and> processChannelCover channel_config sample_platform ''http://h''
        (snd (processChannelCover channel_config sample_platform ''http://h'' remote_world))
     = processChannelCover channel_config sample_platform ''http://h'' remote_world"
proof -
  let ?T = "processTrackCover channel_config sample_platform track_a_metadata ''t/a.mp3'' track_a_stat
              ''http://h'' (sample_world [])"
  let ?C = "processChannelCover channel_config sample_platform ''http://h'' remote_world"
  let ?ht = "''t/a.mp3:100000000000000000000000''"
  let ?hc = "''http://img/c.jpg0000000000000000''"
  have t_url: "fst ?T = Some ''http://h/covers_cache/track_t/a.mp3:1000_1000.jpg''"
    by (simp add: sample_eval pipeline_eval string_eval)
  then have t_eq: "?T = (Some ''http://h/covers_cache/track_t/a.mp3:1000_1000.jpg'', snd ?T)"
    by (simp add: prod_eq_iff)
  have c_url: "fst ?C = ''http://h/covers_cache/channel_http://img/c_1000.jpg''"
    by (simp add: sample_eval pipeline_eval string_eval)
  then have c_eq: "?C = (''http://h/covers_cache/channel_http://img/c_1000.jpg'', snd ?C)"
    by (simp add: prod_eq_iff)
  have pic: "picture track_a_metadata = Some [4000, 2000, 7]" "picture track_a_metadata \<noteq> None"
    by (simp_all add: track_a_metadata_def)
  have t_md5: "md5 sample_platform (''t/a.mp3'' @ '':'' @ toString (stat_size track_a_stat)) = Some ?ht"
    by (simp add: sample_eval string_eval)
  have t_stored: "track_coverFilename channel_config ?ht \<in> dom (covers_cache (snd ?T))"
    by (simp add: sample_eval pipeline_eval string_eval)
  have c_set: "channelImage channel_config \<noteq> []"
    by (simp add: sample_eval)
  have c_md5: "md5 sample_platform (channelImage channel_config) = Some ?hc"
    by (simp add: sample_eval)
  have c_stored: "channel_coverFilename channel_config ?hc \<in> dom (covers_cache (snd ?C))"
    by (simp add: sample_eval pipeline_eval string_eval)
  have c_nonempty: "''http://h/covers_cache/channel_http://img/c_1000.jpg'' \<noteq> []"
    by simp
  have t_hit: "processTrackCover channel_config sample_platform track_a_metadata ''t/a.mp3'' track_a_stat
                 ''http://h'' (snd ?T)
               = (Some (''http://h'' @ ''/covers_cache/'' @ track_coverFilename channel_config ?ht), snd ?T)"
    using cover_cache_keyed_by_file
      [where metadata = track_a_metadata and picture_data = "[4000, 2000, 7]"
         and pf = sample_platform and filePath = "''t/a.mp3''" and stat = track_a_stat
         and hash = ?ht and cfg = channel_config and w = "snd ?T" and base = "''http://h''"]
      pic(1) t_md5 t_stored
    by blast
  have c_hit: "processChannelCover channel_config sample_platform ''http://h'' (snd ?C)
               = (''http://h'' @ ''/covers_cache/'' @ channel_coverFilename channel_config ?hc, snd ?C)"
    using cover_cache_keyed_by_file
      [where pf = sample_platform and hash' = ?hc and cfg = channel_config and w = "snd ?C"
         and base = "''http://h''"]
      c_set c_md5 c_stored
    by blast
  have t_again: "crop_calls (snd ?T) \<le> crop_calls (sample_world []) + 1
      \<and> processTrackCover channel_config sample_platform track_a_metadata ''t/a.mp3'' track_a_stat
          ''http://h'' (snd ?T)
        = (Some ''http://h/covers_cache/track_t/a.mp3:1000_1000.jpg'', snd ?T)"
    using cover_cache_keyed_by_file
      [where metadata = track_a_metadata and pf = sample_platform and filePath = "''t/a.mp3''"
         and stat = track_a_stat and cfg = channel_config and w = "sample_world []"
         and base = "''http://h''" and url = "''http://h/covers_cache/track_t/a.mp3:1000_1000.jpg''"
         and ?w1.0 = "snd ?T" and metadata' = track_a_metadata and stat' = track_a_stat]
      t_eq pic(2)
    by blast
  have c_again: "crop_calls (snd ?C) \<le> crop_calls remote_world + 1
      \<and> processChannelCover channel_config sample_platform ''http://h'' (snd ?C)
        = (''http://h/covers_cache/channel_http://img/c_1000.jpg'', snd ?C)"
    using cover_cache_keyed_by_file
      [where pf = sample_platform and cfg = channel_config and w = remote_world
         and base = "''http://h''" and curl = "''http://h/covers_cache/channel_http://img/c_1000.jpg''"
         and ?w2.0 = "snd ?C"]
      c_eq c_nonempty
    by blast
  from t_hit t_again have "processTrackCover channel_config sample_platform track_a_metadata ''t/a.mp3''
      track_a_stat ''http://h'' (snd ?T) = ?T"
    using t_eq by simp
  moreover from c_hit c_again have "processChannelCover channel_config sample_platform ''http://h'' (snd ?C) = ?C"
    using c_eq by simp
  ultimately show ?thesis
    using t_url c_url by blast
qed

text \<open>
  C4 as first stated fails: two requests for the same path and size with different
  embedded picture bytes have the same key. The second is answered with the asset that
  was derived from the bytes of the first, and no second derivation takes place.
\<close>

theorem cover_key_ignores_picture_bytes_counterexample:
  "picture (track_a_metadata\<lparr>picture := Some [3000, 3000, 9]\<rparr>) \<noteq> picture track_a_metadata
   \<and> processTrackCover sample_config sample_platform (track_a_metadata\<lparr>picture := Some [3000, 3000, 9]\<rparr>)
       ''t/a.mp3'' track_a_stat ''http://h''
       (snd (processTrackCover sample_config sample_platform track_a_metadata
               ''t/a.mp3'' track_a_stat ''http://h'' (sample_world [])))
     = processTrackCover sample_config sample_platform track_a_metadata
         ''t/a.mp3'' track_a_stat ''http://h'' (sample_world [])
   \<and> covers_cache (snd (processTrackCover sample_config sample_platform track_a_metadata
               ''t/a.mp3'' track_a_stat ''http://h'' (sample_world [])))
        ''track_t/a.mp3:1000_1000.jpg''
     = Some (Derived [4000, 2000, 7] [Extract 1000 0 2000 2000, Resize 1000 1000 Fill, Jpeg 90])
   \<and> crop_calls (snd (processTrackCover sample_config sample_platform track_a_metadata
               ''t/a.mp3'' track_a_stat ''http://h'' (sample_world []))) = 1"
  by (simp add: sample_eval pipeline_eval string_eval)


section \<open>The feed cache: hits and failed rebuilds\<close>

lemma rss_xml_answer_is_cached:
  assumes "rss_xml cfg pf req s = (RssXml d t, s')"
  shows "data (rssCache s') = Some d \<and> fileHash (rssCache s') = currentFolderHash req
       \<and> lastUpdated (rssCache s') = t"
  using assms
  by (auto simp: rss_xml_def shouldRefreshCache_def
      split: if_splits prod.splits sum.splits option.splits)

text \<open>
  C1. For every two requests to \<^verbatim>\<open>/rss.xml\<close> such that the first was answered with a feed
  document, the folder hash of the second equals that of the first, and the second
  arrives while the age of the cache entry is within the cache duration, the second
  request is answered with the same document and changes nothing: the cache, the
  counter of rebuilds, and the world with its counters of metadata extractions and cover
  derivations are as they were, whatever the world has become in between.
\<close>

theorem rss_xml_serves_cached_within_ttl:
  assumes "rss_xml cfg pf req1 s0 = (RssXml d t, s1)"
    and "currentFolderHash req2 = currentFolderHash req1"
    and "now req2 - lastUpdated (rssCache s1) \<le> cacheDuration (rssCache s1)"
  shows "rss_xml cfg pf req2 (s1\<lparr>world := w\<rparr>) = (RssXml d t, s1\<lparr>world := w\<rparr>)"
proof -
  from rss_xml_answer_is_cached[OF assms(1)]
  have "\<not> shouldRefreshCache (rssCache (s1\<lparr>world := w\<rparr>)) req2"
    using assms(2,3) by (simp add: shouldRefreshCache_def)
  with rss_xml_answer_is_cached[OF assms(1)] show ?thesis
    by (simp add: rss_xml_def)
qed

text \<open>
  The statement of C1 at a request at time 1000 and a second one 199 seconds later with
  the same folder hash.
\<close>

theorem rss_xml_serves_cached_within_ttl_witness:
  "rss_xml sample_config sample_platform (request_at 200000 ''h1'') warm_server
     = (fst (rss_xml sample_config sample_platform (request_at 1000 ''h1'') (sample_server [track_b])),
        warm_server)
   \<and> rebuilds warm_server = 1"
proof -
  have "\<exists>d. rss_xml sample_config sample_platform (request_at 1000 ''h1'') (sample_server [track_b])
          = (RssXml d 1000, warm_server)"
    by (simp add: warm_server_def sample_eval pipeline_eval handler_eval string_eval)
  then obtain d where first:
    "rss_xml sample_config sample_platform (request_at 1000 ''h1'') (sample_server [track_b])
       = (RssXml d 1000, warm_server)"
    by blast
  have same: "currentFolderHash (request_at 200000 ''h1'') = currentFolderHash (request_at 1000 ''h1'')"
    by (simp add: request_at_def)
  have age: "now (request_at 200000 ''h1'') - lastUpdated (rssCache warm_server)
               \<le> cacheDuration (rssCache warm_server)"
    by (simp add: warm_server_def sample_eval pipeline_eval handler_eval string_eval)
  have count: "rebuilds warm_server = 1"
    by (simp add: warm_server_def sample_eval pipeline_eval handler_eval string_eval)
  from rss_xml_serves_cached_within_ttl[OF first same age, of "world warm_server"] first count
  show ?thesis by simp
qed

text \<open>
  A rebuild that fails inside \<^verbatim>\<open>/rss.xml\<close> leaves the cache as it was: the exception
  leaves the handler before the assignment to \<^verbatim>\<open>rssCache.data\<close>.
\<close>

lemma rss_xml_failed_rebuild_keeps_cache:
  assumes "fst (rss_xml cfg pf req s) = ServerError"
  shows "rssCache (snd (rss_xml cfg pf req s)) = rssCache s"
  using assms
  by (auto simp: rss_xml_def split: if_splits prod.splits sum.splits option.splits)

text \<open>
  A rebuild that fails inside \<^verbatim>\<open>/refresh-rss\<close> leaves the cache empty: the three fields
  are reset before \<^verbatim>\<open>generateRssData\<close> is awaited.
\<close>

lemma refresh_rss_failed_rebuild_clears_cache:
  assumes "fst (refresh_rss cfg pf req s) = RefreshFailed e"
  shows "data (rssCache (snd (refresh_rss cfg pf req s))) = None
       \<and> lastUpdated (rssCache (snd (refresh_rss cfg pf req s))) = 0
       \<and> fileHash (rssCache (snd (refresh_rss cfg pf req s))) = []"
  using assms
  by (auto simp: refresh_rss_def Let_def split: prod.splits sum.splits)

lemma warm_server_value:
  "warm_server =
     \<lparr>rssCache = \<lparr>data = Some (feed_of_track_b 1), lastUpdated = 1000, fileHash = ''h1'',
                  cacheDuration = 300000\<rparr>,
      world = (sample_world [track_b])
                \<lparr>fileGuidCache := [''t/b.mp3:11'' \<mapsto> ''urn:uuid:t/b.mp3:-1100-0000-0000-000000000000''],
                 parse_calls := 1\<rparr>,
      rebuilds = 1\<rparr>"
  by (simp add: warm_server_def sample_eval pipeline_eval handler_eval string_eval)

text \<open>
  C2, on the code. The cache holds the document built at time 1000. The audio files are
  then gone, and the rebuild fails with ``no audio files found''. Through \<^verbatim>\<open>/rss.xml\<close>
  the failure is answered with status 500 and the cache entry is kept. Through
  \<^verbatim>\<open>/refresh-rss\<close> the failure is reported and the cache entry is gone; once the file
  is back, a request with the old folder hash, still within the cache duration of the
  old entry, is not served the old document but one built anew.
\<close>

theorem refresh_rss_failure_loses_cache_entry:
  "data (rssCache warm_server) = Some (feed_of_track_b 1)
   \<and> fst (rss_xml sample_config sample_platform (request_at 2000 ''h0'') (with_library [] warm_server))
       = ServerError
   \<and> rssCache (snd (rss_xml sample_config sample_platform (request_at 2000 ''h0'') (with_library [] warm_server)))
       = rssCache warm_server
   \<and> fst (refresh_rss sample_config sample_platform (request_at 2000 ''h0'') (with_library [] warm_server))
       = RefreshFailed NoAudioFilesFound
   \<and> data (rssCache (snd (refresh_rss sample_config sample_platform (request_at 2000 ''h0'')
                            (with_library [] warm_server)))) = None
   \<and> fst (rss_xml sample_config sample_platform (request_at 3000 ''h1'') warm_server)
       = RssXml (feed_of_track_b 1) 1000
   \<and> fst (rss_xml sample_config sample_platform (request_at 3000 ''h1'')
            (with_library [track_b]
               (snd (refresh_rss sample_config sample_platform (request_at 2000 ''h0'')
                       (with_library [] warm_server)))))
       = RssXml (feed_of_track_b 3) 3000"
  unfolding warm_server_value
  by (simp add: with_library_def sample_eval pipeline_eval handler_eval string_eval)


section \<open>Overlapping requests: one rebuild per stale check\<close>

lemma sequential_rss_xml:
  assumes "tasks n rid = None"
  shows "run cfg pf [Arrive rid t url, HashReady rid h c, BuildDone rid] n =
           n\<lparr>server := snd (rss_xml cfg pf \<lparr>now = t, baseUrl = url, currentFolderHash = h, buildDate = c\<rparr> (server n)),
             responses := responses n @
               [(rid, fst (rss_xml cfg pf \<lparr>now = t, baseUrl = url, currentFolderHash = h, buildDate = c\<rparr> (server n)))]\<rparr>"
  using assms
  by (auto simp: rss_xml_def Let_def fun_upd_idem split: prod.splits sum.splits option.splits)

lemma step_HashReady_rssCache:
  "rssCache (server (step cfg pf (HashReady rid h c) n)) = rssCache (server n)"
  by (auto simp: Let_def split: option.splits task.splits prod.splits)

lemma step_HashReady_tasks_other:
  "rid' \<noteq> rid \<Longrightarrow> tasks (step cfg pf (HashReady rid h c) n) rid' = tasks n rid'"
  by (auto simp: Let_def split: option.splits task.splits prod.splits)

lemma step_HashReady_stale:
  assumes "tasks n rid = Some (Hashing t url)"
    and "shouldRefreshCache (rssCache (server n)) \<lparr>now = t, baseUrl = url, currentFolderHash = h, buildDate = c\<rparr>"
  shows "rebuilds (server (step cfg pf (HashReady rid h c) n)) = rebuilds (server n) + 1
       \<and> building (step cfg pf (HashReady rid h c) n) rid"
  using assms by (auto simp: Let_def building_def split: prod.splits)

lemma run_checks_tasks_other:
  "rid \<notin> set rids \<Longrightarrow>
     tasks (run cfg pf (map (\<lambda>r. HashReady r (h r) (c r)) rids) n) rid = tasks n rid"
proof (induction rids arbitrary: n)
  case Nil
  then show ?case by simp
next
  case (Cons r rids)
  then have "tasks (run cfg pf (map (\<lambda>r. HashReady r (h r) (c r)) rids) (step cfg pf (HashReady r (h r) (c r)) n)) rid
               = tasks (step cfg pf (HashReady r (h r) (c r)) n) rid"
    by (simp del: step.simps)
  also have "\<dots> = tasks n rid"
    using Cons.prems by (intro step_HashReady_tasks_other) simp
  finally show ?case by (simp del: step.simps)
qed

lemma run_checks_stale:
  assumes "distinct rids"
    and "\<forall>rid\<in>set rids. \<exists>t url. tasks n rid = Some (Hashing t url)
           \<and> shouldRefreshCache (rssCache (server n)) \<lparr>now = t, baseUrl = url, currentFolderHash = h rid, buildDate = c rid\<rparr>"
  shows "rebuilds (server (run cfg pf (map (\<lambda>rid. HashReady rid (h rid) (c rid)) rids) n))
           = rebuilds (server n) + length rids
       \<and> (\<forall>rid\<in>set rids. building (run cfg pf (map (\<lambda>rid. HashReady rid (h rid) (c rid)) rids) n) rid)"
  using assms
proof (induction rids arbitrary: n)
  case Nil
  then show ?case by simp
next
  case (Cons r rids)
  let ?n = "step cfg pf (HashReady r (h r) (c r)) n"
  let ?end = "run cfg pf (map (\<lambda>rid. HashReady rid (h rid) (c rid)) rids) ?n"
  from Cons.prems obtain t url where r: "tasks n r = Some (Hashing t url)"
      "shouldRefreshCache (rssCache (server n)) \<lparr>now = t, baseUrl = url, currentFolderHash = h r, buildDate = c r\<rparr>"
    by auto
  have first: "rebuilds (server ?n) = rebuilds (server n) + 1" "building ?n r"
    using step_HashReady_stale[OF r] by (simp_all del: step.simps)
  have fresh: "r \<notin> set rids" and rest: "distinct rids"
    using Cons.prems(1) by simp_all
  have "\<forall>rid\<in>set rids. \<exists>t url. tasks ?n rid = Some (Hashing t url)
           \<and> shouldRefreshCache (rssCache (server ?n)) \<lparr>now = t, baseUrl = url, currentFolderHash = h rid, buildDate = c rid\<rparr>"
  proof
    fix rid assume in_rest: "rid \<in> set rids"
    then have "rid \<noteq> r" using fresh by auto
    then have "tasks ?n rid = tasks n rid" by (rule step_HashReady_tasks_other)
    with in_rest Cons.prems(2) show "\<exists>t url. tasks ?n rid = Some (Hashing t url)
           \<and> shouldRefreshCache (rssCache (server ?n)) \<lparr>now = t, baseUrl = url, currentFolderHash = h rid, buildDate = c rid\<rparr>"
      by (simp del: step.simps add: step_HashReady_rssCache)
  qed
  from Cons.IH[OF rest this]
  have ih: "rebuilds (server ?end) = rebuilds (server ?n) + length rids"
      "\<forall>rid\<in>set rids. building ?end rid"
    by (simp_all del: step.simps)
  have "tasks ?end r = tasks ?n r"
    using fresh by (rule run_checks_tasks_other)
  with first(2) have "building ?end r"
    by (simp del: step.simps add: building_def)
  with ih first(1) show ?case by (simp del: step.simps)
qed

lemma step_BuildDone_own_result:
  assumes "tasks n rid = Some (Building req (Inr d))"
  shows "responses (step cfg pf (BuildDone rid) n) = responses n @ [(rid, RssXml d (now req))]
       \<and> data (rssCache (server (step cfg pf (BuildDone rid) n))) = Some d"
  using assms by simp

text \<open>
  C5, as amended. The handler has no guard against overlapping rebuilds. For every set of
  requests that wait for their folder hash while the cache entry is stale for each of
  them, every one starts a rebuild of its own when its hash is ready: after the checks of
  \<open>k\<close> such requests \<open>k\<close> more rebuilds have been started and all \<open>k\<close> are in flight
  together. A request whose rebuild succeeds is answered with the document of its own
  rebuild, which it also stores in the cache.
\<close>

theorem overlapping_stale_requests_rebuild_each:
  assumes "distinct rids"
    and "\<forall>rid\<in>set rids. \<exists>t url. tasks n rid = Some (Hashing t url)
           \<and> shouldRefreshCache (rssCache (server n))
                \<lparr>now = t, baseUrl = url, currentFolderHash = h rid, buildDate = c rid\<rparr>"
  shows "rebuilds (server (run cfg pf (map (\<lambda>rid. HashReady rid (h rid) (c rid)) rids) n))
           = rebuilds (server n) + length rids
       \<and> (\<forall>rid\<in>set rids. building (run cfg pf (map (\<lambda>rid. HashReady rid (h rid) (c rid)) rids) n) rid)
       \<and> (tasks n' r = Some (Building req (Inr d)) \<longrightarrow>
            responses (step cfg pf (BuildDone r) n') = responses n' @ [(r, RssXml d (now req))]
          \<and> data (rssCache (server (step cfg pf (BuildDone r) n'))) = Some d)"
  using run_checks_stale[OF assms] step_BuildDone_own_result[of n' r req d cfg pf]
  by blast

text \<open>
  The statement of C5 at three requests that arrive while the cache entry built at time
  1000 has outlived its duration, before any of them has its folder hash: three more
  rebuilds are started, and the second request, when its build is done, is answered
  with the document that its own build produced.
\<close>

theorem overlapping_stale_requests_rebuild_each_witness:
  "distinct [1, 2, 3 :: nat]
   \<and> data (rssCache (server (arrived [1, 2, 3]))) = Some (feed_of_track_b 1)
   \<and> rebuilds (server (arrived [1, 2, 3])) = 1
   \<and> rebuilds (server (run sample_config sample_platform
                         (map (\<lambda>rid. HashReady rid ''h1'' (400500 + int rid)) [1, 2, 3])
                         (arrived [1, 2, 3]))) = 4
   \<and> building (run sample_config sample_platform
                  (map (\<lambda>rid. HashReady rid ''h1'' (400500 + int rid)) [1, 2, 3]) (arrived [1, 2, 3])) 1
   \<and> building (run sample_config sample_platform
                  (map (\<lambda>rid. HashReady rid ''h1'' (400500 + int rid)) [1, 2, 3]) (arrived [1, 2, 3])) 3
   \<and> tasks (run sample_config sample_platform
               (map (\<lambda>rid. HashReady rid ''h1'' (400500 + int rid)) [1, 2, 3]) (arrived [1, 2, 3])) 2
       = Some (Building \<lparr>now = 400002, baseUrl = ''http://h'', currentFolderHash = ''h1'',
                          buildDate = 400502\<rparr>
                 (Inr (feed_of_track_b 400)))
   \<and> responses (step sample_config sample_platform (BuildDone 2)
                  (run sample_config sample_platform
                     (map (\<lambda>rid. HashReady rid ''h1'' (400500 + int rid)) [1, 2, 3])
                     (arrived [1, 2, 3])))
       = [(2, RssXml (feed_of_track_b 400) 400002)]"
proof -
  let ?n = "run sample_config sample_platform
              (map (\<lambda>rid. HashReady rid ''h1'' (400500 + int rid)) [1, 2, 3]) (arrived [1, 2, 3])"
  let ?req = "\<lparr>now = 400002, baseUrl = ''http://h'', currentFolderHash = ''h1'',
                buildDate = 400502\<rparr>"
  have d: "distinct [1, 2, 3 :: nat]" by simp
  have entry: "data (rssCache (server (arrived [1, 2, 3]))) = Some (feed_of_track_b 1)"
    by (simp add: arrived_def stale_node_def warm_server_value)
  have stale: "\<forall>rid\<in>set [1, 2, 3 :: nat]. \<exists>t url. tasks (arrived [1, 2, 3]) rid = Some (Hashing t url)
       \<and> shouldRefreshCache (rssCache (server (arrived [1, 2, 3])))
           \<lparr>now = t, baseUrl = url, currentFolderHash = (\<lambda>rid. ''h1'') rid,
            buildDate = (\<lambda>rid. 400500 + int rid) rid\<rparr>"
    by (simp add: arrived_def stale_node_def warm_server_value shouldRefreshCache_def)
  have one: "rebuilds (server (arrived [1, 2, 3])) = 1"
    by (simp add: arrived_def stale_node_def warm_server_value)
  have second: "tasks ?n 2 = Some (Building ?req (Inr (feed_of_track_b 400)))"
    by (simp add: arrived_def stale_node_def warm_server_value sample_eval pipeline_eval
        handler_eval string_eval)
  have none: "responses ?n = []"
    by (simp add: arrived_def stale_node_def warm_server_value sample_eval pipeline_eval
        handler_eval string_eval)
  note all = overlapping_stale_requests_rebuild_each
    [OF d stale, where cfg = sample_config and pf = sample_platform and n' = ?n and r = 2
       and req = ?req and d = "feed_of_track_b 400"]
  have counts: "rebuilds (server ?n) = rebuilds (server (arrived [1, 2, 3])) + length [1, 2, 3 :: nat]"
      "\<forall>rid\<in>set [1, 2, 3 :: nat]. building ?n rid"
    using all by blast+
  have own: "responses (step sample_config sample_platform (BuildDone 2) ?n)
               = responses ?n @ [(2, RssXml (feed_of_track_b 400) (now ?req))]"
    using all second by blast
  have four: "rebuilds (server ?n) = 4"
    using counts(1) one by simp
  have b1: "building ?n 1" and b3: "building ?n 3"
    using counts(2) by simp_all
  have answer: "responses (step sample_config sample_platform (BuildDone 2) ?n)
                  = [(2, RssXml (feed_of_track_b 400) 400002)]"
    using own none by simp
  from d entry one four b1 b3 second answer show ?thesis
    by blast
qed

text \<open>
  C5 as first stated fails at two requests that arrive one millisecond apart when the
  cache entry built at time 1000 has outlived its duration of 300000 milliseconds. Each
  of them finds the entry stale; when both folder hashes are ready, two rebuilds have
  been started and both are in flight, and the one audio file has been parsed once for
  each of them.
\<close>

theorem two_overlapping_requests_counterexample:
  "data (rssCache (server (arrived [1, 2]))) = Some (feed_of_track_b 1)
   \<and> shouldRefreshCache (rssCache (server (arrived [1, 2]))) (request_at 400001 ''h1'')
   \<and> shouldRefreshCache (rssCache (server (arrived [1, 2]))) (request_at 400002 ''h1'')
   \<and> rebuilds (server (arrived [1, 2])) = 1
   \<and> parse_calls (world (server (arrived [1, 2]))) = 1
   \<and> rebuilds (server (run sample_config sample_platform
                         [HashReady 1 ''h1'' 400001, HashReady 2 ''h1'' 400002] (arrived [1, 2]))) = 3
   \<and> building (run sample_config sample_platform
                 [HashReady 1 ''h1'' 400001, HashReady 2 ''h1'' 400002] (arrived [1, 2])) 1
   \<and> building (run sample_config sample_platform
                 [HashReady 1 ''h1'' 400001, HashReady 2 ''h1'' 400002] (arrived [1, 2])) 2
   \<and> parse_calls (world (server (run sample_config sample_platform
                                    [HashReady 1 ''h1'' 400001, HashReady 2 ''h1'' 400002]
                                    (arrived [1, 2])))) = 3"
  by (simp add: arrived_def stale_node_def warm_server_value sample_eval pipeline_eval
      handler_eval string_eval)

end
